theory Spec2Isabelle
  imports Main
begin

section \<open>Values, objects and the store\<close>

text \<open>
  The tracker of \<^verbatim>\<open>src/userBehaviour.js\<close> is one module-level object \<^verbatim>\<open>state\<close>
  that is mutated by the public operations, by DOM listeners and by interval timers.
  The model is explicit state passing over one record that holds the fields of
  \<^verbatim>\<open>state\<close>, the part of the browser the code talks to (listener lists of
  \<^verbatim>\<open>window\<close> and of media elements, interval timers, the two history entry points,
  the globals the handlers read, the clock) and a store of the mutable objects of the
  result buffer. The store matters: \<^verbatim>\<open>processResults\<close> hands out
  \<^verbatim>\<open>{ ...state.results }\<close>, a copy of the top-level object only, so the nested
  objects are shared by reference.

  A fault (a thrown exception) is a value: an operation that can throw returns
  \<open>Inl (e, s)\<close>, the fault together with the state at the moment of the throw
  (nothing is rolled back in JavaScript), or \<open>Inr s\<close> when it returns normally.

  What the model fixes:
  \<^item> numbers (coordinates, timestamps, intervals) are integers;
  \<^item> the store is typed: a reference that does not lead to an object of the expected
    kind makes the access a TypeError, as a property access on \<^verbatim>\<open>undefined\<close> is;
    no buffer built by \<^verbatim>\<open>resetResults\<close> has such a reference;
  \<^item> the callbacks of the embedding page observe and may throw, but do not call back
    into the tracker (see the section on configuration);
  \<^item> the clock is an arbitrary sequence of readings; what a property needs of it
    (never running backwards, say) is a hypothesis of that property.
\<close>

datatype error = TypeError | Thrown nat

type_synonym 'a result = "(error \<times> 'a) + 'a"

text \<open>Primitive values stored in the records; every number is an integer here.\<close>

datatype jsv = Num int | Str string | Undefined

text \<open>
  One record of a sequence: the positional arrays \<^verbatim>\<open>[x, y, ts]\<close>, and the object
  \<^verbatim>\<open>{eventName, details, timestamp}\<close> of the custom events. Records are values:
  the code never writes into a record after it is pushed.
\<close>

datatype entry = Tup "jsv list" | CustomEvent string jsv int

type_synonym addr = nat

record userinfo =
  ui_windowSize :: "int \<times> int"
  ui_appCodeName :: string
  ui_appName :: string
  ui_vendor :: string
  ui_platform :: string
  ui_userAgent :: string

text \<open>The top-level result object: every field is a reference (\<open>userInfo\<close> may be null).\<close>

record results =
  r_userInfo :: "addr option"
  r_time :: addr
  r_clicks :: addr
  r_mouseMovements :: addr
  r_mouseScroll :: addr
  r_keyboardActivities :: addr
  r_navigationHistory :: addr
  r_formInteractions :: addr
  r_touchEvents :: addr
  r_mediaInteractions :: addr
  r_windowSizes :: addr
  r_visibilityChanges :: addr
  r_customEvents :: addr

datatype cell =
    UserInfoObj userinfo
  | TimeObj int int int
  | ClicksObj nat addr
  | ArrayObj "entry list"
  | ResultsObj results

text \<open>The store: object \<open>a\<close> lives at index \<open>a\<close>; a new object is appended.\<close>

type_synonym store = "cell list"

definition get_results :: "store \<Rightarrow> addr \<Rightarrow> results option" where
  "get_results h a =
     (if a < length h then (case h ! a of ResultsObj ro \<Rightarrow> Some ro | _ \<Rightarrow> None) else None)"

definition get_array :: "store \<Rightarrow> addr \<Rightarrow> entry list option" where
  "get_array h a =
     (if a < length h then (case h ! a of ArrayObj xs \<Rightarrow> Some xs | _ \<Rightarrow> None) else None)"

definition get_time :: "store \<Rightarrow> addr \<Rightarrow> (int \<times> int \<times> int) option" where
  "get_time h a =
     (if a < length h then (case h ! a of TimeObj st cu sp \<Rightarrow> Some (st, cu, sp) | _ \<Rightarrow> None)
      else None)"

definition get_clicks :: "store \<Rightarrow> addr \<Rightarrow> (nat \<times> addr) option" where
  "get_clicks h a =
     (if a < length h then (case h ! a of ClicksObj n d \<Rightarrow> Some (n, d) | _ \<Rightarrow> None) else None)"

definition get_userinfo :: "store \<Rightarrow> addr \<Rightarrow> userinfo option" where
  "get_userinfo h a =
     (if a < length h then (case h ! a of UserInfoObj u \<Rightarrow> Some u | _ \<Rightarrow> None) else None)"

text \<open>\<^verbatim>\<open>arr.push(e)\<close> on the array object at \<open>a\<close>; \<open>None\<close> when there is no array there.\<close>

definition arr_push :: "addr \<Rightarrow> entry \<Rightarrow> store \<Rightarrow> store option" where
  "arr_push a e h =
     (case get_array h a of None \<Rightarrow> None | Some xs \<Rightarrow> Some (h[a := ArrayObj (xs @ [e])]))"

definition set_startTime :: "addr \<Rightarrow> int \<Rightarrow> store \<Rightarrow> store option" where
  "set_startTime a t h =
     (case get_time h a of None \<Rightarrow> None | Some (st, cu, sp) \<Rightarrow> Some (h[a := TimeObj t cu sp]))"

definition set_currentTime :: "addr \<Rightarrow> int \<Rightarrow> store \<Rightarrow> store option" where
  "set_currentTime a t h =
     (case get_time h a of None \<Rightarrow> None | Some (st, cu, sp) \<Rightarrow> Some (h[a := TimeObj st t sp]))"

definition set_stopTime :: "addr \<Rightarrow> int \<Rightarrow> store \<Rightarrow> store option" where
  "set_stopTime a t h =
     (case get_time h a of None \<Rightarrow> None | Some (st, cu, sp) \<Rightarrow> Some (h[a := TimeObj st cu t]))"

section \<open>Configuration\<close>

text \<open>
  The consumer callback \<^verbatim>\<open>processData\<close> and the user handlers of custom events are
  code of the embedding page. They are modelled as observers: a consumer reads the store
  through the snapshot it is given and either returns (\<open>None\<close>) or throws; it does not
  call back into the tracker. What page code can do later with a snapshot it kept is
  modelled by separate store writes (\<open>user_push\<close>, \<open>user_set_platform\<close> below).
\<close>

type_synonym consumer = "store \<Rightarrow> addr \<Rightarrow> error option"

record config =
  userInfo :: bool
  clicks :: bool
  mouseMovement :: bool
  mouseMovementInterval :: int
  mouseScroll :: bool
  timeCount :: bool
  clearAfterProcess :: bool
  processTime :: int
  windowResize :: bool
  visibilitychange :: bool
  keyboardActivity :: bool
  pageNavigation :: bool
  formInteractions :: bool
  touchEvents :: bool
  audioVideoInteraction :: bool
  customEventRegistration :: bool
  processData :: consumer

definition DEFAULT_CONFIG :: config where
  "DEFAULT_CONFIG =
     \<lparr> userInfo = True, clicks = True, mouseMovement = True, mouseMovementInterval = 1,
       mouseScroll = True, timeCount = True, clearAfterProcess = True, processTime = 15,
       windowResize = True, visibilitychange = True, keyboardActivity = True,
       pageNavigation = True, formInteractions = True, touchEvents = True,
       audioVideoInteraction = True, customEventRegistration = True,
       processData = (\<lambda>h a. None) \<rparr>"

text \<open>
  The argument of \<^verbatim>\<open>config(newConfig)\<close> is an object literal: a list of key/value
  pairs, a later pair overriding an earlier one, as the spread
  \<^verbatim>\<open>{ ...DEFAULT_CONFIG, ...newConfig }\<close> does.
\<close>

datatype setting =
    UserInfo bool
  | Clicks bool
  | MouseMovement bool
  | MouseMovementInterval int
  | MouseScroll bool
  | TimeCount bool
  | ClearAfterProcess bool
  | ProcessTime int
  | WindowResize bool
  | Visibilitychange bool
  | KeyboardActivity bool
  | PageNavigation bool
  | FormInteractions bool
  | TouchEvents bool
  | AudioVideoInteraction bool
  | CustomEventRegistration bool
  | ProcessData consumer

fun apply_setting :: "setting \<Rightarrow> config \<Rightarrow> config" where
  "apply_setting (UserInfo b) c = c\<lparr>userInfo := b\<rparr>"
| "apply_setting (Clicks b) c = c\<lparr>clicks := b\<rparr>"
| "apply_setting (MouseMovement b) c = c\<lparr>mouseMovement := b\<rparr>"
| "apply_setting (MouseMovementInterval n) c = c\<lparr>mouseMovementInterval := n\<rparr>"
| "apply_setting (MouseScroll b) c = c\<lparr>mouseScroll := b\<rparr>"
| "apply_setting (TimeCount b) c = c\<lparr>timeCount := b\<rparr>"
| "apply_setting (ClearAfterProcess b) c = c\<lparr>clearAfterProcess := b\<rparr>"
| "apply_setting (ProcessTime n) c = c\<lparr>processTime := n\<rparr>"
| "apply_setting (WindowResize b) c = c\<lparr>windowResize := b\<rparr>"
| "apply_setting (Visibilitychange b) c = c\<lparr>visibilitychange := b\<rparr>"
| "apply_setting (KeyboardActivity b) c = c\<lparr>keyboardActivity := b\<rparr>"
| "apply_setting (PageNavigation b) c = c\<lparr>pageNavigation := b\<rparr>"
| "apply_setting (FormInteractions b) c = c\<lparr>formInteractions := b\<rparr>"
| "apply_setting (TouchEvents b) c = c\<lparr>touchEvents := b\<rparr>"
| "apply_setting (AudioVideoInteraction b) c = c\<lparr>audioVideoInteraction := b\<rparr>"
| "apply_setting (CustomEventRegistration b) c = c\<lparr>customEventRegistration := b\<rparr>"
| "apply_setting (ProcessData f) c = c\<lparr>processData := f\<rparr>"

section \<open>Events, handlers and the state\<close>

text \<open>An entry of \<^verbatim>\<open>e.composedPath()\<close>, with the four properties the click handler reads.\<close>

record element =
  localName :: string
  className :: string
  classList :: "string list"
  el_id :: string

text \<open>
  The event object, with the properties the handlers read. \<open>key\<close> is \<^verbatim>\<open>e.key\<close>, a
  string on a keyboard event and \<^verbatim>\<open>undefined\<close> on an event that has no such property;
  \<open>target_name\<close> is \<^verbatim>\<open>e.target.name\<close> and \<open>target_submit\<close> tells whether
  \<^verbatim>\<open>e.target.submit\<close> is a function, as it is on a form.
\<close>

record event =
  ev_type :: string
  clientX :: int
  clientY :: int
  composedPath :: "element list"
  key :: jsv
  target_name :: string
  target_submit :: bool
  touches :: "(int \<times> int) list"
  detail :: jsv

type_synonym userhandler = "event \<Rightarrow> error option"

text \<open>
  Listener functions are compared by identity (\<^verbatim>\<open>Map\<close> keys,
  \<^verbatim>\<open>removeEventListener\<close>). The three module-level functions have one identity each;
  every arrow function created inside \<^verbatim>\<open>start\<close>, \<^verbatim>\<open>trackMediaElement\<close> or
  \<^verbatim>\<open>registerCustomEvent\<close> is a new closure, identified by a number drawn at its
  creation, together with what it captured.
\<close>

datatype handler =
    HandleMouseMove
  | HandleClick
  | HandleFormSubmit
  | ScrollH nat
  | ResizeH nat
  | VisibilityH nat
  | KeydownH nat
  | NavH nat
  | TouchH nat
  | MediaH nat nat
  | WrappedH nat string userhandler

text \<open>The two closures given to \<^verbatim>\<open>setInterval\<close>.\<close>

datatype timer_cb = SampleMouse | Flush

text \<open>A history entry point: the browser's own function or the proxy that wraps it.\<close>

datatype histfn = Native | Patched

text \<open>The globals read by the handlers and by \<^verbatim>\<open>resetResults\<close>.\<close>

record env =
  innerWidth :: int
  innerHeight :: int
  scrollX :: int
  scrollY :: int
  visibilityState :: string
  href :: string
  appCodeName :: string
  appName :: string
  vendor :: string
  platform :: string
  userAgent :: string
  mediaInDocument :: "nat list"
  currentSrc :: "nat \<Rightarrow> string"
  currentTime :: "nat \<Rightarrow> int"

type_synonym listener = "string \<times> handler \<times> bool"

record state =
  st_config :: config
  st_active :: bool
  st_listeners :: "(handler \<times> listener) list"
  st_intervals :: "nat list"
  st_mediaElements :: "(nat \<times> string \<times> handler) list"
  st_results :: "addr option"
  st_mousePosition :: "(int \<times> int \<times> int) option"
  st_originalPushState :: histfn
  st_originalReplaceState :: histfn
  heap :: store
  win_listeners :: "listener list"
  elem_listeners :: "(nat \<times> string \<times> handler) list"
  timers :: "(nat \<times> timer_cb \<times> int) list"
  next_timer :: nat
  next_closure :: nat
  hist_pushState :: histfn
  hist_replaceState :: histfn
  environment :: env
  date_now :: "nat \<Rightarrow> int"
  date_reads :: nat
  delivered :: "addr list"
  uncaught :: "error list"

text \<open>
  \<open>st_*\<close> are the fields of \<^verbatim>\<open>state\<close> (\<open>st_listeners\<close> the \<^verbatim>\<open>Map\<close> in
  insertion order, \<open>st_intervals\<close> and \<open>st_mediaElements\<close> the two \<^verbatim>\<open>Set\<close>s).
  The rest is the browser: \<open>win_listeners\<close> the listeners of \<^verbatim>\<open>window\<close>,
  \<open>timers\<close> the armed intervals (id, callback, delay in ms), \<open>date_now i\<close> the
  value of the \<open>i\<close>-th call of \<^verbatim>\<open>Date.now()\<close> and \<open>date_reads\<close> the number of
  calls so far. \<open>delivered\<close> logs the snapshots handed to the consumer and
  \<open>uncaught\<close> the faults that left the tracker's code.
\<close>

definition getTimestamp :: "state \<Rightarrow> int \<times> state" where
  "getTimestamp s = (date_now s (date_reads s), s\<lparr>date_reads := Suc (date_reads s)\<rparr>)"

text \<open>The live result object, when \<^verbatim>\<open>state.results\<close> is not null.\<close>

definition live :: "state \<Rightarrow> results option" where
  "live s = (case st_results s of None \<Rightarrow> None | Some r \<Rightarrow> get_results (heap s) r)"


text \<open>Reading an object through a reference to a result object (live or snapshot).\<close>

definition obj_array :: "(results \<Rightarrow> addr) \<Rightarrow> store \<Rightarrow> addr \<Rightarrow> entry list option" where
  "obj_array fld h a =
     (case get_results h a of None \<Rightarrow> None | Some ro \<Rightarrow> get_array h (fld ro))"

definition obj_time :: "store \<Rightarrow> addr \<Rightarrow> (int \<times> int \<times> int) option" where
  "obj_time h a = (case get_results h a of None \<Rightarrow> None | Some ro \<Rightarrow> get_time h (r_time ro))"

definition obj_clicks :: "store \<Rightarrow> addr \<Rightarrow> (nat \<times> entry list) option" where
  "obj_clicks h a =
     (case get_results h a of None \<Rightarrow> None
      | Some ro \<Rightarrow>
          (case get_clicks h (r_clicks ro) of None \<Rightarrow> None
           | Some (n, d) \<Rightarrow> (case get_array h d of None \<Rightarrow> None | Some xs \<Rightarrow> Some (n, xs))))"

text \<open>\<open>Some None\<close> is a result object whose \<^verbatim>\<open>userInfo\<close> is null.\<close>

definition obj_userInfo :: "store \<Rightarrow> addr \<Rightarrow> userinfo option option" where
  "obj_userInfo h a =
     (case get_results h a of None \<Rightarrow> None
      | Some ro \<Rightarrow>
          (case r_userInfo ro of None \<Rightarrow> Some None
           | Some u \<Rightarrow> (case get_userinfo h u of None \<Rightarrow> None | Some v \<Rightarrow> Some (Some v))))"

definition live_array :: "(results \<Rightarrow> addr) \<Rightarrow> state \<Rightarrow> entry list option" where
  "live_array fld s = (case st_results s of None \<Rightarrow> None | Some r \<Rightarrow> obj_array fld (heap s) r)"

definition live_time :: "state \<Rightarrow> (int \<times> int \<times> int) option" where
  "live_time s = (case st_results s of None \<Rightarrow> None | Some r \<Rightarrow> obj_time (heap s) r)"

definition live_clicks :: "state \<Rightarrow> (nat \<times> entry list) option" where
  "live_clicks s = (case st_results s of None \<Rightarrow> None | Some r \<Rightarrow> obj_clicks (heap s) r)"

definition live_userInfo :: "state \<Rightarrow> userinfo option option" where
  "live_userInfo s = (case st_results s of None \<Rightarrow> None | Some r \<Rightarrow> obj_userInfo (heap s) r)"

section \<open>The result buffer\<close>

text \<open>
  \<^verbatim>\<open>resetResults\<close> builds a new object graph and stores its root in
  \<^verbatim>\<open>state.results\<close>: the new objects are appended to the store, the old ones stay
  where they are (a snapshot handed out earlier may still refer to them).
\<close>

definition resetResults :: "state \<Rightarrow> state" where
  "resetResults s =
     (let e = environment s;
          ui = (if userInfo (st_config s)
                then [UserInfoObj \<lparr> ui_windowSize = (innerWidth e, innerHeight e),
                        ui_appCodeName = appCodeName e, ui_appName = appName e,
                        ui_vendor = vendor e, ui_platform = platform e,
                        ui_userAgent = userAgent e \<rparr>]
                else []);
          b = length (heap s);
          k = b + length ui
      in s\<lparr> st_results := Some (k + 13),
            heap := heap s @ ui @
              [TimeObj 0 0 0, ArrayObj [], ClicksObj 0 (k + 1),
               ArrayObj [], ArrayObj [], ArrayObj [], ArrayObj [], ArrayObj [],
               ArrayObj [], ArrayObj [], ArrayObj [], ArrayObj [], ArrayObj [],
               ResultsObj \<lparr> r_userInfo = (if userInfo (st_config s) then Some b else None),
                 r_time = k, r_clicks = k + 2, r_mouseMovements = k + 3,
                 r_mouseScroll = k + 4, r_keyboardActivities = k + 5,
                 r_navigationHistory = k + 6, r_formInteractions = k + 7,
                 r_touchEvents = k + 8, r_mediaInteractions = k + 9,
                 r_windowSizes = k + 10, r_visibilityChanges = k + 11,
                 r_customEvents = k + 12 \<rparr>] \<rparr>)"

text \<open>
  \<^verbatim>\<open>state.results.<seq>.push([..., getTimestamp()])\<close>: the member chain is evaluated
  first (a TypeError when \<^verbatim>\<open>state.results\<close> is null), then the record with its
  clock reading, then the push.
\<close>

definition push_to :: "addr \<Rightarrow> (int \<Rightarrow> entry) \<Rightarrow> state \<Rightarrow> state result" where
  "push_to a mk s =
     (case get_array (heap s) a of
        None \<Rightarrow> Inl (TypeError, s)
      | Some xs \<Rightarrow>
          (let (t, s1) = getTimestamp s
           in Inr (s1\<lparr>heap := (heap s1)[a := ArrayObj (xs @ [mk t])]\<rparr>)))"

definition push_signal :: "(results \<Rightarrow> addr) \<Rightarrow> (int \<Rightarrow> entry) \<Rightarrow> state \<Rightarrow> state result" where
  "push_signal fld mk s =
     (case live s of None \<Rightarrow> Inl (TypeError, s) | Some ro \<Rightarrow> push_to (fld ro) mk s)"

section \<open>Handlers\<close>

definition handleMouseMove :: "event \<Rightarrow> state \<Rightarrow> state result" where
  "handleMouseMove e s =
     (let (t, s1) = getTimestamp s
      in Inr (s1\<lparr>st_mousePosition := Some (clientX e, clientY e, t)\<rparr>))"

text \<open>\<^verbatim>\<open>Array.prototype.join\<close>.\<close>

fun js_join :: "string \<Rightarrow> string list \<Rightarrow> string" where
  "js_join sep [] = []"
| "js_join sep [x] = x"
| "js_join sep (x # y # ys) = x @ sep @ js_join sep (y # ys)"

text \<open>
  The body of the \<^verbatim>\<open>forEach\<close> callback after its guard: the node string of one path
  entry. An absent \<^verbatim>\<open>localName\<close>, \<^verbatim>\<open>className\<close> or \<^verbatim>\<open>id\<close> is the empty string
  (falsy, as \<^verbatim>\<open>undefined\<close> is).
\<close>

definition node_of :: "element \<Rightarrow> string" where
  "node_of el =
     (let node = localName el;
          node = (if className el \<noteq> [] then node @ ''.'' @ js_join ''.'' (classList el) else node);
          node = (if el_id el \<noteq> [] then node @ ''#'' @ el_id el else node)
      in node)"

text \<open>
  The \<^verbatim>\<open>forEach\<close> over \<^verbatim>\<open>e.composedPath()\<close>: \<open>n\<close> is the length of the path,
  \<open>i\<close> the index of the entry at hand, \<open>path\<close> the array built so far. The guard
  \<^verbatim>\<open>i >= length - 2\<close> is over JavaScript numbers, so \<open>length - 2\<close> may be negative.
\<close>

fun path_loop :: "int \<Rightarrow> nat \<Rightarrow> element list \<Rightarrow> string list \<Rightarrow> string list" where
  "path_loop n i [] path = path"
| "path_loop n i (el # els) path =
     (if int i \<ge> n - 2 then path_loop n (Suc i) els path
      else path_loop n (Suc i) els (path @ [node_of el]))"

definition handleClick :: "event \<Rightarrow> state \<Rightarrow> state result" where
  "handleClick e s =
     (case live s of
        None \<Rightarrow> Inl (TypeError, s)
      | Some ro \<Rightarrow>
          (case get_clicks (heap s) (r_clicks ro) of
             None \<Rightarrow> Inl (TypeError, s)
           | Some (n, d) \<Rightarrow>
               (let s1 = s\<lparr>heap := (heap s)[r_clicks ro := ClicksObj (Suc n) d]\<rparr>;
                    path = path_loop (int (length (composedPath e))) 0 (composedPath e) []
                in push_to d
                     (\<lambda>t. Tup [Num (clientX e), Num (clientY e),
                               Str (js_join '' > '' (rev path)), Num t]) s1)))"

text \<open>
  \<^verbatim>\<open>handleFormSubmit\<close>. \<^verbatim>\<open>preventDefault\<close> and a successful \<^verbatim>\<open>e.target.submit()\<close>
  act on the page only; the call of \<^verbatim>\<open>e.target.submit\<close> throws, after the record is
  pushed, when the target has no such function.
\<close>

definition handleFormSubmit :: "event \<Rightarrow> state \<Rightarrow> state result" where
  "handleFormSubmit e s =
     (case push_signal r_formInteractions (\<lambda>t. Tup [Str (target_name e), Num t]) s of
        Inl x \<Rightarrow> Inl x
      | Inr s1 \<Rightarrow> if target_submit e then Inr s1 else Inl (TypeError, s1))"

text \<open>The sampling closure given to \<^verbatim>\<open>setInterval\<close> in \<^verbatim>\<open>start\<close>.\<close>

definition entry_at :: "entry \<Rightarrow> nat \<Rightarrow> jsv" where
  "entry_at e i = (case e of Tup vs \<Rightarrow> (if i < length vs then vs ! i else Undefined)
                   | CustomEvent n d t \<Rightarrow> Undefined)"

definition sampleMouse :: "state \<Rightarrow> state result" where
  "sampleMouse s =
     (case st_mousePosition s of
        None \<Rightarrow> Inr s
      | Some (x, y, t) \<Rightarrow>
          (case live s of
             None \<Rightarrow> Inl (TypeError, s)
           | Some ro \<Rightarrow>
               (case get_array (heap s) (r_mouseMovements ro) of
                  None \<Rightarrow> Inl (TypeError, s)
                | Some mm \<Rightarrow>
                    if mm = [] \<or> Num x \<noteq> entry_at (last mm) 0 \<or> Num y \<noteq> entry_at (last mm) 1
                    then Inr (s\<lparr>heap := (heap s)[r_mouseMovements ro :=
                                 ArrayObj (mm @ [Tup [Num x, Num y, Num t]])]\<rparr>)
                    else Inr s)))"

fun run_handler :: "handler \<Rightarrow> event \<Rightarrow> state \<Rightarrow> state result" where
  "run_handler HandleMouseMove e s = handleMouseMove e s"
| "run_handler HandleClick e s = handleClick e s"
| "run_handler HandleFormSubmit e s = handleFormSubmit e s"
| "run_handler (ScrollH c) e s =
     push_signal r_mouseScroll
       (\<lambda>t. Tup [Num (scrollX (environment s)), Num (scrollY (environment s)), Num t]) s"
| "run_handler (ResizeH c) e s =
     push_signal r_windowSizes
       (\<lambda>t. Tup [Num (innerWidth (environment s)), Num (innerHeight (environment s)), Num t]) s"
| "run_handler (VisibilityH c) e s =
     push_signal r_visibilityChanges (\<lambda>t. Tup [Str (visibilityState (environment s)), Num t]) s"
| "run_handler (KeydownH c) e s =
     push_signal r_keyboardActivities (\<lambda>t. Tup [key e, Num t]) s"
| "run_handler (NavH c) e s =
     push_signal r_navigationHistory (\<lambda>t. Tup [Str (href (environment s)), Num t]) s"
| "run_handler (TouchH c) e s =
     (case touches e of
        [] \<Rightarrow> Inl (TypeError, s)
      | (x, y) # _ \<Rightarrow>
          push_signal r_touchEvents (\<lambda>t. Tup [Str ''touchstart'', Num x, Num y, Num t]) s)"
| "run_handler (MediaH c el) e s =
     push_signal r_mediaInteractions
       (\<lambda>t. Tup [Str (ev_type e), Str (currentSrc (environment s) el),
                 Num (currentTime (environment s) el), Num t]) s"
| "run_handler (WrappedH c name uh) e s =
     (case push_signal r_customEvents (\<lambda>t. CustomEvent name (detail e) t) s of
        Inl x \<Rightarrow> Inl x
      | Inr s1 \<Rightarrow> (case uh e of Some err \<Rightarrow> Inl (err, s1) | None \<Rightarrow> Inr s1))"


section \<open>The browser: listeners, timers, dispatch\<close>

text \<open>
  \<^verbatim>\<open>addEventListener\<close> ignores a listener already present with the same type,
  callback and capture flag; \<^verbatim>\<open>removeEventListener\<close> removes the matching one.
\<close>

definition addEventListener :: "'a \<Rightarrow> 'a list \<Rightarrow> 'a list" where
  "addEventListener l ls = (if l \<in> set ls then ls else ls @ [l])"

definition removeEventListener :: "'a \<Rightarrow> 'a list \<Rightarrow> 'a list" where
  "removeEventListener l ls = removeAll l ls"

text \<open>\<^verbatim>\<open>Map.prototype.set\<close>: an existing key keeps its place and gets the new value.\<close>

fun map_set :: "'k \<Rightarrow> 'v \<Rightarrow> ('k \<times> 'v) list \<Rightarrow> ('k \<times> 'v) list" where
  "map_set k v [] = [(k, v)]"
| "map_set k v ((k', v') # m) = (if k' = k then (k, v) # m else (k', v') # map_set k v m)"

text \<open>\<^verbatim>\<open>Set.prototype.add\<close>.\<close>

definition set_add :: "'a \<Rightarrow> 'a list \<Rightarrow> 'a list" where
  "set_add x xs = (if x \<in> set xs then xs else xs @ [x])"

definition setInterval :: "timer_cb \<Rightarrow> int \<Rightarrow> state \<Rightarrow> nat \<times> state" where
  "setInterval cb d s =
     (next_timer s,
      s\<lparr>timers := timers s @ [(next_timer s, cb, d)], next_timer := Suc (next_timer s)\<rparr>)"

definition clearInterval :: "nat \<Rightarrow> state \<Rightarrow> state" where
  "clearInterval i s = s\<lparr>timers := filter (\<lambda>t. fst t \<noteq> i) (timers s)\<rparr>"

text \<open>A new closure: its identity.\<close>

definition new_closure :: "state \<Rightarrow> nat \<times> state" where
  "new_closure s = (next_closure s, s\<lparr>next_closure := Suc (next_closure s)\<rparr>)"

text \<open>
  A fault that leaves a listener or a timer callback is reported by the browser and the
  dispatch goes on; a fault that leaves a public operation reaches the page code that
  called it. Both are logged in \<open>uncaught\<close>; the state is the one at the throw.
\<close>

definition report :: "state result \<Rightarrow> state" where
  "report r = (case r of Inl (e, s) \<Rightarrow> s\<lparr>uncaught := uncaught s @ [e]\<rparr> | Inr s \<Rightarrow> s)"

definition state_of :: "state result \<Rightarrow> state" where
  "state_of r = (case r of Inl (e, s) \<Rightarrow> s | Inr s \<Rightarrow> s)"

definition invoke :: "event \<Rightarrow> listener \<Rightarrow> state \<Rightarrow> state" where
  "invoke e l s =
     (case l of (ty, h, cap) \<Rightarrow> if ty = ev_type e then report (run_handler h e s) else s)"

text \<open>
  An event that reaches \<^verbatim>\<open>window\<close>: the listeners registered at the start of the
  dispatch run, the capturing ones first, each group in registration order.
\<close>

definition dispatchEvent :: "event \<Rightarrow> state \<Rightarrow> state" where
  "dispatchEvent e s =
     fold (invoke e)
       (filter (\<lambda>l. snd (snd l)) (win_listeners s) @
        filter (\<lambda>l. \<not> snd (snd l)) (win_listeners s)) s"

text \<open>An event fired at media element \<open>el\<close>.\<close>

definition dispatchMedia :: "nat \<Rightarrow> event \<Rightarrow> state \<Rightarrow> state" where
  "dispatchMedia el e s =
     fold (\<lambda>m s. case m of (el', ty, h) \<Rightarrow>
              if el' = el \<and> ty = ev_type e then report (run_handler h e s) else s)
       (elem_listeners s) s"

text \<open>
  \<^verbatim>\<open>new Event(type)\<close>, dispatched at \<^verbatim>\<open>window\<close>: it has no \<^verbatim>\<open>key\<close>, no
  \<^verbatim>\<open>detail\<close> and no touches, and its target is the window, whose name is empty here and
  which has no \<^verbatim>\<open>submit\<close>.
\<close>

definition Event :: "string \<Rightarrow> event" where
  "Event ty = \<lparr> ev_type = ty, clientX = 0, clientY = 0, composedPath = [], key = Undefined,
                target_name = [], target_submit = False, touches = [], detail = Undefined \<rparr>"

section \<open>Public operations\<close>

definition config :: "setting list \<Rightarrow> state \<Rightarrow> state" where
  "config newConfig s = s\<lparr>st_config := fold apply_setting newConfig DEFAULT_CONFIG\<rparr>"

definition getConfig :: "state \<Rightarrow> config" where
  "getConfig s = st_config s"

text \<open>The local \<^verbatim>\<open>addListener\<close> of \<^verbatim>\<open>start\<close>: the registry is keyed by the handler.\<close>

definition addListener :: "string \<Rightarrow> handler \<Rightarrow> bool \<Rightarrow> state \<Rightarrow> state" where
  "addListener ty h opt s =
     s\<lparr> win_listeners := addEventListener (ty, h, opt) (win_listeners s),
        st_listeners := map_set h (ty, h, opt) (st_listeners s) \<rparr>"

text \<open>
  \<^verbatim>\<open>state.results.time.startTime = getTimestamp()\<close> right after \<^verbatim>\<open>resetResults()\<close>;
  the buffer just built is there, so the two \<open>None\<close> branches are never taken
  (lemma \<open>stamp_start_resetResults\<close>).
\<close>

definition stamp_start :: "state \<Rightarrow> state" where
  "stamp_start s =
     (case live s of
        None \<Rightarrow> s
      | Some ro \<Rightarrow>
          (let (t, s1) = getTimestamp s
           in (case set_startTime (r_time ro) t (heap s1) of
                 None \<Rightarrow> s1
               | Some h \<Rightarrow> s1\<lparr>heap := h\<rparr>)))"

definition start_mouseMovement :: "state \<Rightarrow> state" where
  "start_mouseMovement s =
     (if mouseMovement (st_config s)
      then (let s1 = addListener ''mousemove'' HandleMouseMove False s;
                (i, s2) = setInterval SampleMouse (mouseMovementInterval (st_config s1) * 1000) s1
            in s2\<lparr>st_intervals := set_add i (st_intervals s2)\<rparr>)
      else s)"

definition start_clicks :: "state \<Rightarrow> state" where
  "start_clicks s = (if clicks (st_config s) then addListener ''click'' HandleClick False s else s)"

definition start_mouseScroll :: "state \<Rightarrow> state" where
  "start_mouseScroll s =
     (if mouseScroll (st_config s)
      then (let (c, s1) = new_closure s in addListener ''scroll'' (ScrollH c) False s1)
      else s)"

definition start_windowResize :: "state \<Rightarrow> state" where
  "start_windowResize s =
     (if windowResize (st_config s)
      then (let (c, s1) = new_closure s in addListener ''resize'' (ResizeH c) False s1)
      else s)"

definition start_visibilitychange :: "state \<Rightarrow> state" where
  "start_visibilitychange s =
     (if visibilitychange (st_config s)
      then (let (c, s1) = new_closure s in addListener ''visibilitychange'' (VisibilityH c) False s1)
      else s)"

definition start_keyboardActivity :: "state \<Rightarrow> state" where
  "start_keyboardActivity s =
     (if keyboardActivity (st_config s)
      then (let (c, s1) = new_closure s in addListener ''keydown'' (KeydownH c) False s1)
      else s)"

text \<open>Both proxies wrap the functions saved in \<^verbatim>\<open>state.originalHistoryMethods\<close>.\<close>

definition patchHistoryMethods :: "state \<Rightarrow> state" where
  "patchHistoryMethods s = s\<lparr>hist_pushState := Patched, hist_replaceState := Patched\<rparr>"

definition start_pageNavigation :: "state \<Rightarrow> state" where
  "start_pageNavigation s =
     (if pageNavigation (st_config s)
      then (let s1 = patchHistoryMethods s;
                (c, s2) = new_closure s1
            in fold (\<lambda>ev. addListener ev (NavH c) False)
                 [''popstate'', ''pushstate'', ''replacestate'', ''locationchange''] s2)
      else s)"

definition start_formInteractions :: "state \<Rightarrow> state" where
  "start_formInteractions s =
     (if formInteractions (st_config s) then addListener ''submit'' HandleFormSubmit True s else s)"

definition start_touchEvents :: "state \<Rightarrow> state" where
  "start_touchEvents s =
     (if touchEvents (st_config s)
      then (let (c, s1) = new_closure s in addListener ''touchstart'' (TouchH c) False s1)
      else s)"

definition trackMediaElement :: "nat \<Rightarrow> state \<Rightarrow> state" where
  "trackMediaElement el s =
     (let (c, s1) = new_closure s
      in fold (\<lambda>ev s. s\<lparr> elem_listeners := addEventListener (el, ev, MediaH c el) (elem_listeners s),
                          st_mediaElements := st_mediaElements s @ [(el, ev, MediaH c el)] \<rparr>)
           [''play'', ''pause'', ''ended'', ''volumechange''] s1)"

definition start_audioVideoInteraction :: "state \<Rightarrow> state" where
  "start_audioVideoInteraction s =
     (if audioVideoInteraction (st_config s)
      then fold trackMediaElement (mediaInDocument (environment s)) s
      else s)"

text \<open>The guard is \<^verbatim>\<open>if (state.config.processTime)\<close>: a number is falsy only when it is 0.\<close>

definition start_processTime :: "state \<Rightarrow> state" where
  "start_processTime s =
     (if processTime (st_config s) \<noteq> 0
      then (let (i, s1) = setInterval Flush (processTime (st_config s) * 1000) s
            in s1\<lparr>st_intervals := set_add i (st_intervals s1)\<rparr>)
      else s)"

text \<open>The conditional blocks of \<^verbatim>\<open>start\<close>, in the order of the source.\<close>

definition subscribe_all :: "state \<Rightarrow> state" where
  "subscribe_all s =
     start_processTime (start_audioVideoInteraction (start_touchEvents
       (start_formInteractions (start_pageNavigation (start_keyboardActivity
         (start_visibilitychange (start_windowResize (start_mouseScroll (start_clicks
           (start_mouseMovement s))))))))))"

definition start :: "state \<Rightarrow> state" where
  "start s =
     (if st_active s then s
      else subscribe_all (stamp_start (resetResults (s\<lparr>st_active := True\<rparr>))))"

text \<open>\<^verbatim>\<open>Object.assign(state.results, { userInfo: u })\<close> on the buffer just rebuilt.\<close>

definition assign_userInfo :: "addr option \<Rightarrow> state \<Rightarrow> state" where
  "assign_userInfo u s =
     (case st_results s of
        None \<Rightarrow> s
      | Some r \<Rightarrow>
          (case get_results (heap s) r of
             None \<Rightarrow> s
           | Some ro \<Rightarrow> s\<lparr>heap := (heap s)[r := ResultsObj (ro\<lparr>r_userInfo := u\<rparr>)]\<rparr>))"

text \<open>
  \<^verbatim>\<open>processResults\<close>, in the order of its statements.
  \<open>stamp_current\<close> is \<^verbatim>\<open>state.results.time.currentTime = getTimestamp()\<close>.
  \<open>copy_results\<close> is the spread \<^verbatim>\<open>{ ...state.results }\<close>: a new top-level object
  with the same field values, that is the same references; its address is logged in
  \<open>delivered\<close>. \<open>consume\<close> calls the consumer with it and then, when
  \<^verbatim>\<open>clearAfterProcess\<close> is set, rebuilds the buffer and assigns the preserved
  \<^verbatim>\<open>userInfo\<close> reference back.
\<close>

definition stamp_current :: "results \<Rightarrow> state \<Rightarrow> state" where
  "stamp_current ro s =
     (let (t, s1) = getTimestamp s
      in (case set_currentTime (r_time ro) t (heap s1) of
            None \<Rightarrow> s1
          | Some h \<Rightarrow> s1\<lparr>heap := h\<rparr>))"

definition copy_results :: "results \<Rightarrow> state \<Rightarrow> state" where
  "copy_results ro s =
     s\<lparr>heap := heap s @ [ResultsObj ro], delivered := delivered s @ [length (heap s)]\<rparr>"

definition clear_preserving :: "results \<Rightarrow> state \<Rightarrow> state" where
  "clear_preserving ro s =
     (if userInfo (st_config s) then assign_userInfo (r_userInfo ro) (resetResults s)
      else resetResults s)"

definition consume :: "results \<Rightarrow> addr \<Rightarrow> state \<Rightarrow> state result" where
  "consume ro snap s =
     (case processData (st_config s) (heap s) snap of
        Some e \<Rightarrow> Inl (e, s)
      | None \<Rightarrow> if clearAfterProcess (st_config s) then Inr (clear_preserving ro s) else Inr s)"

definition deliver :: "results \<Rightarrow> state \<Rightarrow> state result" where
  "deliver ro s = consume ro (length (heap s)) (copy_results ro s)"

definition processResults :: "state \<Rightarrow> state result" where
  "processResults s =
     (case live s of
        None \<Rightarrow> Inl (TypeError, s)
      | Some ro \<Rightarrow>
          (case get_time (heap s) (r_time ro) of
             None \<Rightarrow> Inl (TypeError, s)
           | Some tm \<Rightarrow> deliver ro (stamp_current ro s)))"

text \<open>\<^verbatim>\<open>stop\<close>, in the order of its statements.\<close>

definition clear_intervals :: "state \<Rightarrow> state" where
  "clear_intervals s = (fold clearInterval (st_intervals s) s)\<lparr>st_intervals := []\<rparr>"

definition remove_listeners :: "state \<Rightarrow> state" where
  "remove_listeners s =
     s\<lparr> win_listeners := fold (\<lambda>kv ls. removeEventListener (snd kv) ls) (st_listeners s)
                            (win_listeners s),
        st_listeners := [] \<rparr>"

definition remove_media_listeners :: "state \<Rightarrow> state" where
  "remove_media_listeners s =
     s\<lparr> elem_listeners := fold removeEventListener (st_mediaElements s) (elem_listeners s),
        st_mediaElements := [] \<rparr>"

definition restore_history :: "state \<Rightarrow> state" where
  "restore_history s =
     s\<lparr> hist_pushState := st_originalPushState s,
        hist_replaceState := st_originalReplaceState s \<rparr>"

definition stamp_stop :: "results \<Rightarrow> state \<Rightarrow> state" where
  "stamp_stop ro s =
     (let (t, s1) = getTimestamp s
      in (case set_stopTime (r_time ro) t (heap s1) of
            None \<Rightarrow> s1
          | Some h \<Rightarrow> s1\<lparr>heap := h\<rparr>))"

definition final_flush :: "state \<Rightarrow> state result" where
  "final_flush s =
     (case live s of
        None \<Rightarrow> Inl (TypeError, s)
      | Some ro \<Rightarrow>
          (case get_time (heap s) (r_time ro) of
             None \<Rightarrow> Inl (TypeError, s)
           | Some tm \<Rightarrow> processResults (stamp_stop ro s)))"

definition stop :: "state \<Rightarrow> state result" where
  "stop s =
     (if \<not> st_active s then Inr s
      else final_flush (restore_history (remove_media_listeners (remove_listeners
             (clear_intervals (s\<lparr>st_active := False\<rparr>))))))"

text \<open>
  \<^verbatim>\<open>registerCustomEvent\<close>: a new wrapper closure is added to \<^verbatim>\<open>window\<close> and to the
  registry, whether or not a session is active.
\<close>

definition registerCustomEvent :: "string \<Rightarrow> userhandler \<Rightarrow> state \<Rightarrow> state" where
  "registerCustomEvent eventName uh s =
     (if \<not> customEventRegistration (st_config s) then s
      else (let (c, s1) = new_closure s
            in addListener eventName (WrappedH c eventName uh) False s1))"

text \<open>
  \<^verbatim>\<open>structuredClone\<close> of a result object: every object it refers to is copied to a new
  address. \<open>None\<close> only for a store in which a reference of the object does not lead to
  an object of its kind, which no buffer built by \<open>resetResults\<close> is.
\<close>

definition structuredClone :: "addr \<Rightarrow> store \<Rightarrow> (addr \<times> store) option" where
  "structuredClone r h =
     (case get_results h r of
        None \<Rightarrow> None
      | Some ro \<Rightarrow>
          (case get_clicks h (r_clicks ro) of
             None \<Rightarrow> None
           | Some (n, d) \<Rightarrow>
               if (\<forall>a \<in> set ([r_time ro, d, r_mouseMovements ro, r_mouseScroll ro,
                              r_keyboardActivities ro, r_navigationHistory ro,
                              r_formInteractions ro, r_touchEvents ro, r_mediaInteractions ro,
                              r_windowSizes ro, r_visibilityChanges ro, r_customEvents ro]
                             @ (case r_userInfo ro of None \<Rightarrow> [] | Some u \<Rightarrow> [u])). a < length h)
               then (let ui = (case r_userInfo ro of None \<Rightarrow> [] | Some u \<Rightarrow> [h ! u]);
                         b = length h;
                         k = b + length ui
                     in Some (k + 13,
                          h @ ui @
                          [h ! r_time ro, h ! d, ClicksObj n (k + 1),
                           h ! r_mouseMovements ro, h ! r_mouseScroll ro,
                           h ! r_keyboardActivities ro, h ! r_navigationHistory ro,
                           h ! r_formInteractions ro, h ! r_touchEvents ro,
                           h ! r_mediaInteractions ro, h ! r_windowSizes ro,
                           h ! r_visibilityChanges ro, h ! r_customEvents ro,
                           ResultsObj \<lparr> r_userInfo = (case r_userInfo ro of None \<Rightarrow> None
                                                       | Some u \<Rightarrow> Some b),
                             r_time = k, r_clicks = k + 2, r_mouseMovements = k + 3,
                             r_mouseScroll = k + 4, r_keyboardActivities = k + 5,
                             r_navigationHistory = k + 6, r_formInteractions = k + 7,
                             r_touchEvents = k + 8, r_mediaInteractions = k + 9,
                             r_windowSizes = k + 10, r_visibilityChanges = k + 11,
                             r_customEvents = k + 12 \<rparr>]))
               else None))"

definition getResults :: "state \<Rightarrow> addr option \<times> state" where
  "getResults s =
     (case st_results s of
        None \<Rightarrow> (None, s)
      | Some r \<Rightarrow>
          (case structuredClone r (heap s) of
             None \<Rightarrow> (None, s)
           | Some (a, h) \<Rightarrow> (Some a, s\<lparr>heap := h\<rparr>)))"

section \<open>Runs\<close>

text \<open>An interval whose id is armed fires: its callback runs.\<close>

definition fire :: "nat \<Rightarrow> state \<Rightarrow> state" where
  "fire i s =
     (case filter (\<lambda>t. fst t = i) (timers s) of
        [] \<Rightarrow> s
      | (_, cb, _) # _ \<Rightarrow>
          (case cb of SampleMouse \<Rightarrow> report (sampleMouse s) | Flush \<Rightarrow> report (processResults s)))"

text \<open>
  Page code calls \<^verbatim>\<open>history.pushState\<close> or \<^verbatim>\<open>history.replaceState\<close>: the proxy does
  the original mutation and then dispatches its two events.
\<close>

definition history_call :: "bool \<Rightarrow> string \<Rightarrow> state \<Rightarrow> state" where
  "history_call push url s =
     (let s1 = s\<lparr>environment := (environment s)\<lparr>href := url\<rparr>\<rparr>
      in (case (if push then hist_pushState s else hist_replaceState s) of
            Native \<Rightarrow> s1
          | Patched \<Rightarrow>
              dispatchEvent (Event ''locationchange'')
                (dispatchEvent (Event (if push then ''pushstate'' else ''replacestate'')) s1)))"

text \<open>What can happen to a tracker: calls of its public operations, and the browser.\<close>

datatype action =
    Config "setting list"
  | Start
  | Stop
  | ProcessResults
  | RegisterCustomEvent string userhandler
  | GetResults
  | GetConfig
  | Dispatch event
  | DispatchMedia nat event
  | TimerFire nat
  | SetEnvironment env
  | PushState string
  | ReplaceState string

fun step :: "action \<Rightarrow> state \<Rightarrow> state" where
  "step (Config nc) s = config nc s"
| "step Start s = start s"
| "step Stop s = report (stop s)"
| "step ProcessResults s = report (processResults s)"
| "step (RegisterCustomEvent n uh) s = registerCustomEvent n uh s"
| "step GetResults s = snd (getResults s)"
| "step GetConfig s = s"
| "step (Dispatch e) s = dispatchEvent e s"
| "step (DispatchMedia el e) s = dispatchMedia el e s"
| "step (TimerFire i) s = fire i s"
| "step (SetEnvironment v) s = s\<lparr>environment := v\<rparr>"
| "step (PushState url) s = history_call True url s"
| "step (ReplaceState url) s = history_call False url s"

definition run :: "action list \<Rightarrow> state \<Rightarrow> state" where
  "run as s = fold step as s"

text \<open>The module as loaded on a page with globals \<open>v\<close> and clock \<open>now\<close>.\<close>

definition init :: "env \<Rightarrow> (nat \<Rightarrow> int) \<Rightarrow> state" where
  "init v now =
     \<lparr> st_config = DEFAULT_CONFIG, st_active = False, st_listeners = [], st_intervals = [],
       st_mediaElements = [], st_results = None, st_mousePosition = None,
       st_originalPushState = Native, st_originalReplaceState = Native,
       heap = [], win_listeners = [], elem_listeners = [], timers = [],
       next_timer = 1, next_closure = 0, hist_pushState = Native, hist_replaceState = Native,
       environment = v, date_now = now, date_reads = 0, delivered = [], uncaught = [] \<rparr>"

text \<open>
  Page code that kept a snapshot \<open>a\<close> writes into it:
  \<^verbatim>\<open>a.mouseMovements.push(e)\<close> and \<^verbatim>\<open>a.userInfo.platform = p\<close>.
\<close>

definition user_push :: "addr \<Rightarrow> entry \<Rightarrow> state \<Rightarrow> state" where
  "user_push a e s =
     (case get_results (heap s) a of
        None \<Rightarrow> s
      | Some ro \<Rightarrow>
          (case arr_push (r_mouseMovements ro) e (heap s) of
             None \<Rightarrow> s
           | Some h \<Rightarrow> s\<lparr>heap := h\<rparr>))"

definition user_set_platform :: "addr \<Rightarrow> string \<Rightarrow> state \<Rightarrow> state" where
  "user_set_platform a p s =
     (case get_results (heap s) a of
        None \<Rightarrow> s
      | Some ro \<Rightarrow>
          (case r_userInfo ro of
             None \<Rightarrow> s
           | Some u \<Rightarrow>
               (case get_userinfo (heap s) u of
                  None \<Rightarrow> s
                | Some v \<Rightarrow> s\<lparr>heap := (heap s)[u := UserInfoObj (v\<lparr>ui_platform := p\<rparr>)]\<rparr>)))"


section \<open>A concrete page\<close>

text \<open>
  A page without media elements, a clock that advances by one millisecond per reading,
  and the tracker started on it with the default configuration.
\<close>

definition example_env :: env where
  "example_env =
     \<lparr> innerWidth = 800, innerHeight = 600, scrollX = 0, scrollY = 0,
       visibilityState = ''visible'', href = ''/'', appCodeName = ''Mozilla'',
       appName = ''Netscape'', vendor = ''Acme'', platform = ''Linux'', userAgent = ''UA'',
       mediaInDocument = [], currentSrc = (\<lambda>el. []), currentTime = (\<lambda>el. 0) \<rparr>"

definition example_clock :: "nat \<Rightarrow> int" where
  "example_clock i = 1000 + int i"

definition example_started :: state where
  "example_started = start (init example_env example_clock)"

definition example_click :: event where
  "example_click =
     \<lparr> ev_type = ''click'', clientX = 10, clientY = 20,
       composedPath =
         [\<lparr>localName = ''a'', className = ''btn'', classList = [''btn''], el_id = ''go''\<rparr>,
          \<lparr>localName = ''body'', className = [], classList = [], el_id = []\<rparr>,
          \<lparr>localName = ''html'', className = [], classList = [], el_id = []\<rparr>,
          \<lparr>localName = [], className = [], classList = [], el_id = []\<rparr>,
          \<lparr>localName = [], className = [], classList = [], el_id = []\<rparr>],
       key = Undefined, target_name = [], target_submit = False, touches = [],
       detail = Undefined \<rparr>"

text \<open>The started example after one click.\<close>

definition example_clicked :: state where
  "example_clicked = state_of (handleClick example_click example_started)"

definition example_move :: "int \<Rightarrow> int \<Rightarrow> event" where
  "example_move x y = (Event ''mousemove'')\<lparr>clientX := x, clientY := y\<rparr>"

text \<open>The started example after a mousemove at (1, 1), and after the sampling tick that follows.\<close>

definition example_moved :: state where
  "example_moved = state_of (handleMouseMove (example_move 1 1) example_started)"

definition example_sampled :: state where
  "example_sampled = state_of (sampleMouse example_moved)"

text \<open>
  A session on the example page: a click, the periodic flush (timer 2 of the default
  configuration, which clears the buffer), another click.
\<close>

definition example_session :: "action list" where
  "example_session = [Dispatch example_click, TimerFire 2, Dispatch example_click]"

text \<open>The tracker configured with a negative flush interval and then started.\<close>

definition example_negative :: state where
  "example_negative = start (config [ProcessTime (- 1)] (init example_env example_clock))"

text \<open>
  The tracker configured with \<^verbatim>\<open>processTime: 0\<close>, and a session on it: a click, the
  sampling tick, an explicit \<^verbatim>\<open>processResults()\<close>, and a timer firing under the id the
  flush timer has in the default configuration.
\<close>

definition example_manual :: state where
  "example_manual = config [ProcessTime 0] (init example_env example_clock)"

definition example_manual_session :: "action list" where
  "example_manual_session = [Dispatch example_click, TimerFire 1, ProcessResults, TimerFire 2]"

text \<open>A consumer that throws, and a user handler that returns.\<close>

definition example_throwing :: consumer where
  "example_throwing h a = Some (Thrown 1)"

definition example_handler :: userhandler where
  "example_handler e = None"

text \<open>The tracker configured with the throwing consumer and then started.\<close>

definition example_thrower :: state where
  "example_thrower =
     start (config [ProcessData example_throwing] (init example_env example_clock))"

section \<open>Relations between states used in the proofs\<close>

text \<open>
  \<open>keeps s s'\<close>: the step from \<open>s\<close> to \<open>s'\<close> touched only subscriptions (listener
  lists, registries, timers, closure and timer counters, the history entry points).
\<close>

definition keeps :: "state \<Rightarrow> state \<Rightarrow> bool" where
  "keeps s s' \<longleftrightarrow>
     heap s' = heap s \<and> st_results s' = st_results s \<and>
     st_mousePosition s' = st_mousePosition s \<and> st_config s' = st_config s \<and>
     date_now s' = date_now s \<and> date_reads s' = date_reads s \<and>
     st_active s' = st_active s \<and> delivered s' = delivered s \<and> uncaught s' = uncaught s \<and>
     environment s' = environment s \<and> st_originalPushState s' = st_originalPushState s \<and>
     st_originalReplaceState s' = st_originalReplaceState s"

text \<open>
  \<open>grows s s'\<close>: the step from \<open>s\<close> to \<open>s'\<close> armed or cancelled no timer, delivered
  nothing, kept the session state and the root of the buffer, read the clock zero or more
  times, and left every result object and every time object of the store as it was.
\<close>

definition grows :: "state \<Rightarrow> state \<Rightarrow> bool" where
  "grows s s' \<longleftrightarrow>
     timers s' = timers s \<and> st_active s' = st_active s \<and> delivered s' = delivered s \<and>
     st_results s' = st_results s \<and> st_intervals s' = st_intervals s \<and>
     date_now s' = date_now s \<and> date_reads s \<le> date_reads s' \<and>
     (\<forall>a ro. get_results (heap s) a = Some ro \<longrightarrow> get_results (heap s') a = Some ro) \<and>
     (\<forall>a tm. get_time (heap s) a = Some tm \<longrightarrow> get_time (heap s') a = Some tm)"

text \<open>The clock never runs backwards and never shows a time before the epoch.\<close>

definition clock_ok :: "(nat \<Rightarrow> int) \<Rightarrow> bool" where
  "clock_ok now \<longleftrightarrow> (\<forall>i j. i \<le> j \<longrightarrow> now i \<le> now j) \<and> (\<forall>i. 0 \<le> now i)"

text \<open>The start time of the live buffer is not later than the next clock reading.\<close>

definition time_ok :: "state \<Rightarrow> bool" where
  "time_ok s \<longleftrightarrow>
     (\<exists>r ro st cu sp. st_results s = Some r \<and> get_results (heap s) r = Some ro \<and>
        get_time (heap s) (r_time ro) = Some (st, cu, sp) \<and> st \<le> date_now s (date_reads s))"

text \<open>What holds of every state inside a session whose clock is well behaved.\<close>

definition session_inv :: "state \<Rightarrow> bool" where
  "session_inv s \<longleftrightarrow> st_active s \<and> clock_ok (date_now s) \<and> time_ok s"

section \<open>Properties of the store\<close>

lemma get_results_upd:
  "get_results (h[a := c]) b =
     (if b = a \<and> a < length h then (case c of ResultsObj ro \<Rightarrow> Some ro | _ \<Rightarrow> None)
      else get_results h b)"
  by (simp add: get_results_def)

lemma get_time_upd:
  "get_time (h[a := c]) b =
     (if b = a \<and> a < length h
      then (case c of TimeObj st cu sp \<Rightarrow> Some (st, cu, sp) | _ \<Rightarrow> None)
      else get_time h b)"
  by (simp add: get_time_def)

lemma get_array_upd:
  "get_array (h[a := c]) b =
     (if b = a \<and> a < length h then (case c of ArrayObj xs \<Rightarrow> Some xs | _ \<Rightarrow> None)
      else get_array h b)"
  by (simp add: get_array_def)

lemma get_clicks_upd:
  "get_clicks (h[a := c]) b =
     (if b = a \<and> a < length h then (case c of ClicksObj n d \<Rightarrow> Some (n, d) | _ \<Rightarrow> None)
      else get_clicks h b)"
  by (simp add: get_clicks_def)

lemma get_userinfo_upd:
  "get_userinfo (h[a := c]) b =
     (if b = a \<and> a < length h then (case c of UserInfoObj u \<Rightarrow> Some u | _ \<Rightarrow> None)
      else get_userinfo h b)"
  by (simp add: get_userinfo_def)

lemma get_results_bound:
  "get_results h a = Some ro \<Longrightarrow> a < length h \<and> h ! a = ResultsObj ro"
  by (auto simp: get_results_def split: if_splits cell.splits)

lemma get_time_bound:
  "get_time h a = Some tm \<Longrightarrow>
   a < length h \<and> h ! a = TimeObj (fst tm) (fst (snd tm)) (snd (snd tm))"
  by (auto simp: get_time_def split: if_splits cell.splits)

lemma get_array_bound: "get_array h a = Some xs \<Longrightarrow> a < length h \<and> h ! a = ArrayObj xs"
  by (auto simp: get_array_def split: if_splits cell.splits)

lemma get_clicks_bound:
  "get_clicks h a = Some nd \<Longrightarrow> a < length h \<and> h ! a = ClicksObj (fst nd) (snd nd)"
  by (auto simp: get_clicks_def split: if_splits cell.splits)

lemma get_userinfo_bound:
  "get_userinfo h a = Some u \<Longrightarrow> a < length h \<and> h ! a = UserInfoObj u"
  by (auto simp: get_userinfo_def split: if_splits cell.splits)

lemma get_results_append: "a < length h \<Longrightarrow> get_results (h @ xs) a = get_results h a"
  by (simp add: get_results_def nth_append)

lemma get_time_append: "a < length h \<Longrightarrow> get_time (h @ xs) a = get_time h a"
  by (simp add: get_time_def nth_append)

lemma get_array_append: "a < length h \<Longrightarrow> get_array (h @ xs) a = get_array h a"
  by (simp add: get_array_def nth_append)

lemma get_clicks_append: "a < length h \<Longrightarrow> get_clicks (h @ xs) a = get_clicks h a"
  by (simp add: get_clicks_def nth_append)

lemma get_userinfo_append: "a < length h \<Longrightarrow> get_userinfo (h @ xs) a = get_userinfo h a"
  by (simp add: get_userinfo_def nth_append)

section \<open>The started example, evaluated\<close>

lemmas start_defs =
  start_def subscribe_all_def resetResults_def stamp_start_def start_mouseMovement_def
  start_clicks_def
  start_mouseScroll_def start_windowResize_def start_visibilitychange_def
  start_keyboardActivity_def patchHistoryMethods_def start_pageNavigation_def
  start_formInteractions_def start_touchEvents_def trackMediaElement_def
  start_audioVideoInteraction_def start_processTime_def addListener_def addEventListener_def
  set_add_def setInterval_def new_closure_def getTimestamp_def live_def get_results_def
  get_time_def set_startTime_def

lemmas flush_defs =
  processResults_def deliver_def consume_def copy_results_def clear_preserving_def
  stamp_current_def set_currentTime_def assign_userInfo_def resetResults_def getTimestamp_def
  live_def get_results_def get_time_def

lemmas stop_defs =
  stop_def final_flush_def stamp_stop_def set_stopTime_def restore_history_def
  remove_media_listeners_def remove_listeners_def clear_intervals_def clearInterval_def
  removeEventListener_def

lemmas view_defs =
  live_array_def live_time_def live_clicks_def live_userInfo_def obj_array_def obj_time_def
  obj_clicks_def obj_userInfo_def get_results_def get_time_def get_array_def get_clicks_def
  get_userinfo_def

lemma example_started_eval:
  "example_started =
     \<lparr> st_config = DEFAULT_CONFIG, st_active = True,
       st_listeners =
         [(HandleMouseMove, ''mousemove'', HandleMouseMove, False),
          (HandleClick, ''click'', HandleClick, False),
          (ScrollH 0, ''scroll'', ScrollH 0, False),
          (ResizeH 1, ''resize'', ResizeH 1, False),
          (VisibilityH 2, ''visibilitychange'', VisibilityH 2, False),
          (KeydownH 3, ''keydown'', KeydownH 3, False),
          (NavH 4, ''locationchange'', NavH 4, False),
          (HandleFormSubmit, ''submit'', HandleFormSubmit, True),
          (TouchH 5, ''touchstart'', TouchH 5, False)],
       st_intervals = [1, 2], st_mediaElements = [], st_results = Some 14,
       st_mousePosition = None, st_originalPushState = Native,
       st_originalReplaceState = Native,
       heap =
         [UserInfoObj \<lparr> ui_windowSize = (800, 600), ui_appCodeName = ''Mozilla'',
            ui_appName = ''Netscape'', ui_vendor = ''Acme'', ui_platform = ''Linux'',
            ui_userAgent = ''UA'' \<rparr>,
          TimeObj 1000 0 0, ArrayObj [], ClicksObj 0 2,
          ArrayObj [], ArrayObj [], ArrayObj [], ArrayObj [], ArrayObj [],
          ArrayObj [], ArrayObj [], ArrayObj [], ArrayObj [], ArrayObj [],
          ResultsObj \<lparr> r_userInfo = Some 0, r_time = 1, r_clicks = 3, r_mouseMovements = 4,
            r_mouseScroll = 5, r_keyboardActivities = 6, r_navigationHistory = 7,
            r_formInteractions = 8, r_touchEvents = 9, r_mediaInteractions = 10,
            r_windowSizes = 11, r_visibilityChanges = 12, r_customEvents = 13 \<rparr>],
       win_listeners =
         [(''mousemove'', HandleMouseMove, False),
          (''click'', HandleClick, False),
          (''scroll'', ScrollH 0, False),
          (''resize'', ResizeH 1, False),
          (''visibilitychange'', VisibilityH 2, False),
          (''keydown'', KeydownH 3, False),
          (''popstate'', NavH 4, False),
          (''pushstate'', NavH 4, False),
          (''replacestate'', NavH 4, False),
          (''locationchange'', NavH 4, False),
          (''submit'', HandleFormSubmit, True),
          (''touchstart'', TouchH 5, False)],
       elem_listeners = [],
       timers = [(1, SampleMouse, 1000), (2, Flush, 15000)],
       next_timer = 3, next_closure = 6, hist_pushState = Patched,
       hist_replaceState = Patched, environment = example_env, date_now = example_clock,
       date_reads = 1, delivered = [], uncaught = [] \<rparr>"
  by (simp add: example_started_def init_def start_defs DEFAULT_CONFIG_def example_env_def
      example_clock_def)

lemma example_started_fields:
  "st_config example_started = DEFAULT_CONFIG"
  "st_active example_started = True"
  "st_results example_started = Some 14"
  "st_mousePosition example_started = None"
  "st_intervals example_started = [1, 2]"
  "st_mediaElements example_started = []"
  "timers example_started = [(1, SampleMouse, 1000), (2, Flush, 15000)]"
  "elem_listeners example_started = []"
  "st_originalPushState example_started = Native"
  "st_originalReplaceState example_started = Native"
  "environment example_started = example_env"
  "date_now example_started = example_clock"
  "date_reads example_started = 1"
  "delivered example_started = []"
  "uncaught example_started = []"
  "length (heap example_started) = 15"
  by (simp_all add: example_started_eval)

lemma example_started_store:
  "get_results (heap example_started) 14 =
     Some \<lparr> r_userInfo = Some 0, r_time = 1, r_clicks = 3, r_mouseMovements = 4,
            r_mouseScroll = 5, r_keyboardActivities = 6, r_navigationHistory = 7,
            r_formInteractions = 8, r_touchEvents = 9, r_mediaInteractions = 10,
            r_windowSizes = 11, r_visibilityChanges = 12, r_customEvents = 13 \<rparr>"
  "get_time (heap example_started) 1 = Some (1000, 0, 0)"
  "get_time (heap example_started) (Suc 0) = Some (1000, 0, 0)"
  "get_clicks (heap example_started) 3 = Some (0, 2)"
  "get_array (heap example_started) 2 = Some []"
  "get_array (heap example_started) 4 = Some []"
  "get_array (heap example_started) 7 = Some []"
  "get_userinfo (heap example_started) 0 =
     Some \<lparr> ui_windowSize = (800, 600), ui_appCodeName = ''Mozilla'',
            ui_appName = ''Netscape'', ui_vendor = ''Acme'', ui_platform = ''Linux'',
            ui_userAgent = ''UA'' \<rparr>"
  by (simp_all add: example_started_eval get_results_def get_time_def get_clicks_def
      get_array_def get_userinfo_def)

lemma example_started_listeners:
  "win_listeners example_started =
         [(''mousemove'', HandleMouseMove, False),
          (''click'', HandleClick, False),
          (''scroll'', ScrollH 0, False),
          (''resize'', ResizeH 1, False),
          (''visibilitychange'', VisibilityH 2, False),
          (''keydown'', KeydownH 3, False),
          (''popstate'', NavH 4, False),
          (''pushstate'', NavH 4, False),
          (''replacestate'', NavH 4, False),
          (''locationchange'', NavH 4, False),
          (''submit'', HandleFormSubmit, True),
          (''touchstart'', TouchH 5, False)]"
  "st_listeners example_started =
         [(HandleMouseMove, ''mousemove'', HandleMouseMove, False),
          (HandleClick, ''click'', HandleClick, False),
          (ScrollH 0, ''scroll'', ScrollH 0, False),
          (ResizeH 1, ''resize'', ResizeH 1, False),
          (VisibilityH 2, ''visibilitychange'', VisibilityH 2, False),
          (KeydownH 3, ''keydown'', KeydownH 3, False),
          (NavH 4, ''locationchange'', NavH 4, False),
          (HandleFormSubmit, ''submit'', HandleFormSubmit, True),
          (TouchH 5, ''touchstart'', TouchH 5, False)]"
  "hist_pushState example_started = Patched"
  "hist_replaceState example_started = Patched"
  by (simp_all add: example_started_eval)

lemma example_started_heap:
  "heap example_started =
         [UserInfoObj \<lparr> ui_windowSize = (800, 600), ui_appCodeName = ''Mozilla'',
            ui_appName = ''Netscape'', ui_vendor = ''Acme'', ui_platform = ''Linux'',
            ui_userAgent = ''UA'' \<rparr>,
          TimeObj 1000 0 0, ArrayObj [], ClicksObj 0 2,
          ArrayObj [], ArrayObj [], ArrayObj [], ArrayObj [], ArrayObj [],
          ArrayObj [], ArrayObj [], ArrayObj [], ArrayObj [], ArrayObj [],
          ResultsObj \<lparr> r_userInfo = Some 0, r_time = 1, r_clicks = 3, r_mouseMovements = 4,
            r_mouseScroll = 5, r_keyboardActivities = 6, r_navigationHistory = 7,
            r_formInteractions = 8, r_touchEvents = 9, r_mediaInteractions = 10,
            r_windowSizes = 11, r_visibilityChanges = 12, r_customEvents = 13 \<rparr>]"
  by (simp add: example_started_eval)

section \<open>The click handler\<close>

lemma path_loop_take:
  "n = int (i + length els) \<Longrightarrow>
   path_loop n i els path = path @ map node_of (take (nat (n - 2) - i) els)"
proof (induction els arbitrary: i path)
  case Nil
  then show ?case by simp
next
  case (Cons el els)
  have n: "n = int (Suc i + length els)" using Cons.prems by simp
  show ?case
  proof (cases "int i \<ge> n - 2")
    case True
    then have "nat (n - 2) - i = 0" "nat (n - 2) - Suc i = 0" by auto
    with True Cons.IH[OF n] show ?thesis by simp
  next
    case False
    then have "nat (n - 2) - i = Suc (nat (n - 2) - Suc i)" by auto
    with False Cons.IH[OF n] show ?thesis by simp
  qed
qed

lemma click_path:
  "path_loop (int (length p)) 0 p [] = map node_of (take (length p - 2) p)"
proof -
  have "nat (int (length p) - 2) = length p - 2" by auto
  then show ?thesis using path_loop_take[of "int (length p)" 0 p "[]"] by simp
qed

text \<open>
  C9. On a buffer whose click counter is \<open>n\<close> and whose click records are \<open>ds\<close>, the
  click handler returns without a fault for a propagation path of any length, the counter
  becomes \<open>n + 1\<close> and exactly one record is appended: the coordinates, the path string
  and the clock reading. The path string is the reversed join of the node strings of the
  first \<open>max 0 (length - 2)\<close> path entries, so a path of fewer than two entries gives the
  empty string.
\<close>

theorem handleClick_appends_one:
  assumes "live_clicks s = Some (n, ds)"
  shows "\<exists>s'. handleClick e s = Inr s' \<and>
           live_clicks s' =
             Some (Suc n, ds @ [Tup [Num (clientX e), Num (clientY e),
               Str (js_join '' > '' (rev (map node_of
                 (take (nat (max 0 (int (length (composedPath e)) - 2))) (composedPath e))))),
               Num (date_now s (date_reads s))]])"
proof -
  from assms obtain r ro d where r: "st_results s = Some r" "get_results (heap s) r = Some ro"
    and c: "get_clicks (heap s) (r_clicks ro) = Some (n, d)"
    and d: "get_array (heap s) d = Some ds"
    by (auto simp: live_clicks_def obj_clicks_def split: option.splits)
  note rb = get_results_bound[OF r(2)] and cb = get_clicks_bound[OF c]
    and db = get_array_bound[OF d]
  have ne: "r \<noteq> r_clicks ro" "r \<noteq> d" "d \<noteq> r_clicks ro"
    using rb cb db by auto
  have k: "nat (max 0 (int (length (composedPath e)) - 2)) = length (composedPath e) - 2"
    by auto
  show ?thesis
    using r c d ne rb cb db
    by (simp add: handleClick_def live_def push_to_def getTimestamp_def live_clicks_def
        obj_clicks_def get_results_upd get_clicks_upd get_array_upd click_path k)
qed

theorem handleClick_appends_one_witness:
  "live_clicks example_started = Some (0, []) \<and>
   (\<exists>s'. handleClick example_click example_started = Inr s' \<and>
      live_clicks s' = Some (1, [Tup [Num 10, Num 20, Str ''html > body > a.btn#go'', Num 1001]]))"
proof -
  have h: "live_clicks example_started = Some (0, [])"
    by (simp add: live_clicks_def obj_clicks_def example_started_fields example_started_store)
  show ?thesis
    using h handleClick_appends_one[OF h, of example_click]
    by (simp add: example_click_def example_started_fields example_clock_def node_of_def)
qed

section \<open>What \<^verbatim>\<open>start\<close> leaves alone\<close>

lemma keeps_refl: "keeps s s"
  by (simp add: keeps_def)

lemma keeps_trans: "keeps s s' \<Longrightarrow> keeps s' s'' \<Longrightarrow> keeps s s''"
  by (simp add: keeps_def)

lemma keeps_addListener: "keeps s (addListener ty h opt s)"
  by (simp add: keeps_def addListener_def)

lemma keeps_start_mouseMovement: "keeps s (start_mouseMovement s)"
  by (simp add: keeps_def start_mouseMovement_def addListener_def setInterval_def)

lemma keeps_start_clicks: "keeps s (start_clicks s)"
  by (simp add: keeps_def start_clicks_def addListener_def)

lemma keeps_start_mouseScroll: "keeps s (start_mouseScroll s)"
  by (simp add: keeps_def start_mouseScroll_def addListener_def new_closure_def)

lemma keeps_start_windowResize: "keeps s (start_windowResize s)"
  by (simp add: keeps_def start_windowResize_def addListener_def new_closure_def)

lemma keeps_start_visibilitychange: "keeps s (start_visibilitychange s)"
  by (simp add: keeps_def start_visibilitychange_def addListener_def new_closure_def)

lemma keeps_start_keyboardActivity: "keeps s (start_keyboardActivity s)"
  by (simp add: keeps_def start_keyboardActivity_def addListener_def new_closure_def)

lemma keeps_start_pageNavigation: "keeps s (start_pageNavigation s)"
  by (simp add: keeps_def start_pageNavigation_def addListener_def new_closure_def
      patchHistoryMethods_def)

lemma keeps_start_formInteractions: "keeps s (start_formInteractions s)"
  by (simp add: keeps_def start_formInteractions_def addListener_def)

lemma keeps_start_touchEvents: "keeps s (start_touchEvents s)"
  by (simp add: keeps_def start_touchEvents_def addListener_def new_closure_def)

lemma keeps_trackMediaElement: "keeps s (trackMediaElement el s)"
  by (simp add: keeps_def trackMediaElement_def new_closure_def)

lemma keeps_fold_track: "keeps s (fold trackMediaElement els s)"
proof (induction els arbitrary: s)
  case Nil
  show ?case by (simp add: keeps_refl)
next
  case (Cons el els)
  show ?case using keeps_trans[OF keeps_trackMediaElement Cons.IH] by simp
qed

lemma keeps_start_audioVideoInteraction: "keeps s (start_audioVideoInteraction s)"
  by (simp add: start_audioVideoInteraction_def keeps_fold_track keeps_refl)

lemma keeps_start_processTime: "keeps s (start_processTime s)"
  by (simp add: keeps_def start_processTime_def setInterval_def)

lemmas keeps_pieces =
  keeps_trans[OF _ keeps_start_mouseMovement] keeps_trans[OF _ keeps_start_clicks]
  keeps_trans[OF _ keeps_start_mouseScroll] keeps_trans[OF _ keeps_start_windowResize]
  keeps_trans[OF _ keeps_start_visibilitychange] keeps_trans[OF _ keeps_start_keyboardActivity]
  keeps_trans[OF _ keeps_start_pageNavigation] keeps_trans[OF _ keeps_start_formInteractions]
  keeps_trans[OF _ keeps_start_touchEvents] keeps_trans[OF _ keeps_start_audioVideoInteraction]
  keeps_trans[OF _ keeps_start_processTime]

lemma keeps_subscribe_all: "keeps s (subscribe_all s)"
  unfolding subscribe_all_def by (intro keeps_pieces keeps_refl)

section \<open>The sampling tick\<close>

lemma sampleMouse_step:
  assumes "live_array r_mouseMovements s = Some mm" "st_mousePosition s = Some (x, y, t)"
  shows "\<exists>s1. sampleMouse s = Inr s1 \<and>
           live_array r_mouseMovements s1 =
             Some (mm @ (if mm = [] \<or> Num x \<noteq> entry_at (last mm) 0 \<or> Num y \<noteq> entry_at (last mm) 1
                         then [Tup [Num x, Num y, Num t]] else [])) \<and>
           st_mousePosition s1 = st_mousePosition s \<and> date_now s1 = date_now s \<and> date_reads s1 = date_reads s"
proof -
  from assms(1) obtain r ro where r: "st_results s = Some r" "get_results (heap s) r = Some ro"
    and a: "get_array (heap s) (r_mouseMovements ro) = Some mm"
    by (auto simp: live_array_def obj_array_def split: option.splits)
  note rb = get_results_bound[OF r(2)] and ab = get_array_bound[OF a]
  have ne: "r \<noteq> r_mouseMovements ro" using rb ab by auto
  show ?thesis
    using r a ne rb ab assms(2)
    by (simp add: sampleMouse_def live_def live_array_def obj_array_def get_results_upd get_array_upd)
qed

lemma handleMouseMove_step:
  "\<exists>s1. handleMouseMove e s = Inr s1 \<and>
     live_array fld s1 = live_array fld s \<and>
     st_mousePosition s1 = Some (clientX e, clientY e, date_now s (date_reads s)) \<and>
     date_now s1 = date_now s \<and> date_reads s1 = Suc (date_reads s)"
  by (simp add: handleMouseMove_def getTimestamp_def live_array_def split: option.splits)

lemma entry_at_Tup: "entry_at (Tup [a, b, c]) 0 = a" "entry_at (Tup [a, b, c]) (Suc 0) = b"
  by (simp_all add: entry_at_def)

text \<open>
  C3, as the code has it. The sampling tick compares the cached sample with the last
  \<^emph>\<open>recorded\<close> one. Let \<open>mm\<close> be the recorded movements and \<open>(x, y, t)\<close> the
  cached sample, and call the sample fresh when \<open>mm\<close> is empty or its last record has
  other coordinates.
  \<^item> Two ticks on the same cached sample append it once when it is fresh and not at
    all otherwise.
  \<^item> A tick, a mousemove to \<open>(x', y')\<close> and a second tick append the first sample
    when it is fresh, and the second one when its coordinates differ from \<open>(x, y)\<close>:
    two records for distinct coordinates and a fresh first sample, one record for the
    same coordinates.
  \<^item> A tick with no cached sample changes nothing.
\<close>

theorem sampling_dedup:
  assumes mm: "live_array r_mouseMovements s = Some mm"
    and mp: "st_mousePosition s = Some (x, y, t)"
  defines "fresh \<equiv> (mm = [] \<or> Num x \<noteq> entry_at (last mm) 0 \<or> Num y \<noteq> entry_at (last mm) 1)"
  shows "(\<exists>s1 s2. sampleMouse s = Inr s1 \<and> sampleMouse s1 = Inr s2 \<and>
            live_array r_mouseMovements s2 =
              Some (mm @ (if fresh then [Tup [Num x, Num y, Num t]] else []))) \<and>
         (\<exists>s1 s2 s3. sampleMouse s = Inr s1 \<and> handleMouseMove e s1 = Inr s2 \<and>
            sampleMouse s2 = Inr s3 \<and>
            live_array r_mouseMovements s3 =
              Some (mm @ (if fresh then [Tup [Num x, Num y, Num t]] else [])
                       @ (if clientX e = x \<and> clientY e = y then []
                          else [Tup [Num (clientX e), Num (clientY e),
                                     Num (date_now s (date_reads s))]]))) \<and>
         (\<forall>s0. st_mousePosition s0 = None \<longrightarrow> sampleMouse s0 = Inr s0)"
proof (intro conjI)
  obtain s1 where s1: "sampleMouse s = Inr s1"
    and mm1: "live_array r_mouseMovements s1 =
               Some (mm @ (if fresh then [Tup [Num x, Num y, Num t]] else []))"
    and mp1: "st_mousePosition s1 = Some (x, y, t)"
    and clk1: "date_now s1 = date_now s" "date_reads s1 = date_reads s"
    using sampleMouse_step[OF mm mp] mp unfolding fresh_def by auto
  have last1: "\<not> (mm @ (if fresh then [Tup [Num x, Num y, Num t]] else []) = [] \<or>
                Num x \<noteq> entry_at (last (mm @ (if fresh then [Tup [Num x, Num y, Num t]] else []))) 0 \<or>
                Num y \<noteq> entry_at (last (mm @ (if fresh then [Tup [Num x, Num y, Num t]] else []))) 1)"
    unfolding fresh_def by (auto simp: entry_at_Tup)
  show "\<exists>s1 s2. sampleMouse s = Inr s1 \<and> sampleMouse s1 = Inr s2 \<and>
            live_array r_mouseMovements s2 =
              Some (mm @ (if fresh then [Tup [Num x, Num y, Num t]] else []))"
    using sampleMouse_step[OF mm1 mp1] s1 last1 by auto
  obtain s2 where s2: "handleMouseMove e s1 = Inr s2"
    and mm2: "live_array r_mouseMovements s2 =
               Some (mm @ (if fresh then [Tup [Num x, Num y, Num t]] else []))"
    and mp2: "st_mousePosition s2 = Some (clientX e, clientY e, date_now s (date_reads s))"
    using handleMouseMove_step[of e s1 r_mouseMovements] mm1 clk1 by auto
  have last2: "(mm @ (if fresh then [Tup [Num x, Num y, Num t]] else []) = [] \<or>
                Num (clientX e) \<noteq> entry_at (last (mm @ (if fresh then [Tup [Num x, Num y, Num t]] else []))) 0 \<or>
                Num (clientY e) \<noteq> entry_at (last (mm @ (if fresh then [Tup [Num x, Num y, Num t]] else []))) 1)
               \<longleftrightarrow> \<not> (clientX e = x \<and> clientY e = y)"
  proof (cases fresh)
    case True
    then show ?thesis by (auto simp: entry_at_Tup)
  next
    case False
    then have "mm \<noteq> []" "entry_at (last mm) 0 = Num x" "entry_at (last mm) 1 = Num y"
      unfolding fresh_def by auto
    with False show ?thesis by auto
  qed
  show "\<exists>s1 s2 s3. sampleMouse s = Inr s1 \<and> handleMouseMove e s1 = Inr s2 \<and>
            sampleMouse s2 = Inr s3 \<and>
            live_array r_mouseMovements s3 =
              Some (mm @ (if fresh then [Tup [Num x, Num y, Num t]] else [])
                       @ (if clientX e = x \<and> clientY e = y then []
                          else [Tup [Num (clientX e), Num (clientY e),
                                     Num (date_now s (date_reads s))]]))"
    using sampleMouse_step[OF mm2 mp2] s1 s2 last2 by auto
  show "\<forall>s0. st_mousePosition s0 = None \<longrightarrow> sampleMouse s0 = Inr s0"
    by (simp add: sampleMouse_def)
qed


lemma example_moved_fields:
  "st_mousePosition example_moved = Some (1, 1, 1001)"
  "st_results example_moved = Some 14"
  "heap example_moved = heap example_started"
  "date_reads example_moved = 2"
  "date_now example_moved = example_clock"
  by (simp_all add: example_moved_def handleMouseMove_def getTimestamp_def state_of_def
      example_move_def Event_def example_started_fields example_clock_def)

lemma example_moved_mouseMovements: "live_array r_mouseMovements example_moved = Some []"
  by (simp add: live_array_def obj_array_def example_moved_fields example_started_store)

lemma example_sampled_fields:
  "st_mousePosition example_sampled = Some (1, 1, 1001)"
  "live_array r_mouseMovements example_sampled = Some [Tup [Num 1, Num 1, Num 1001]]"
  "date_reads example_sampled = 2"
  "date_now example_sampled = example_clock"
  using sampleMouse_step[OF example_moved_mouseMovements example_moved_fields(1)]
  by (auto simp: example_sampled_def state_of_def example_moved_fields)

theorem sampling_dedup_witness:
  "live_array r_mouseMovements example_moved = Some [] \<and>
   st_mousePosition example_moved = Some (1, 1, 1001) \<and>
   st_mousePosition example_started = None \<and>
   sampleMouse example_started = Inr example_started \<and>
   (\<exists>s1 s2. sampleMouse example_moved = Inr s1 \<and> sampleMouse s1 = Inr s2 \<and>
      live_array r_mouseMovements s2 = Some [Tup [Num 1, Num 1, Num 1001]]) \<and>
   (\<exists>s1 s2 s3. sampleMouse example_moved = Inr s1 \<and>
      handleMouseMove (example_move 2 2) s1 = Inr s2 \<and> sampleMouse s2 = Inr s3 \<and>
      live_array r_mouseMovements s3 =
        Some [Tup [Num 1, Num 1, Num 1001], Tup [Num 2, Num 2, Num 1002]])"
proof -
  have h1: "live_array r_mouseMovements example_moved = Some []"
    by (rule example_moved_mouseMovements)
  have h2: "st_mousePosition example_moved = Some (1, 1, 1001)"
    by (rule example_moved_fields)
  have h3: "st_mousePosition example_started = None"
    by (rule example_started_fields)
  show ?thesis
    using h1 h2 h3 sampling_dedup[OF h1 h2, of "example_move 2 2"]
    by (simp add: example_move_def Event_def example_moved_fields example_clock_def)
qed

text \<open>
  C3 as stated fails where the first of the two samples repeats the last recorded one:
  after the record \<open>(1, 1)\<close>, the ticks see \<open>(1, 1)\<close> and then \<open>(2, 2)\<close>, two
  distinct coordinates, and one record is appended, not two.
\<close>

theorem two_ticks_distinct_one_record:
  "st_mousePosition example_sampled = Some (1, 1, 1001) \<and>
   live_array r_mouseMovements example_sampled = Some [Tup [Num 1, Num 1, Num 1001]] \<and>
   st_mousePosition (state_of (handleMouseMove (example_move 2 2)
       (state_of (sampleMouse example_sampled)))) = Some (2, 2, 1002) \<and>
   live_array r_mouseMovements (state_of (sampleMouse (state_of (handleMouseMove (example_move 2 2)
       (state_of (sampleMouse example_sampled)))))) =
     Some [Tup [Num 1, Num 1, Num 1001], Tup [Num 2, Num 2, Num 1002]]"
proof -
  note f = example_sampled_fields
  obtain s1 where s1: "sampleMouse example_sampled = Inr s1"
    and m1: "live_array r_mouseMovements s1 = Some [Tup [Num 1, Num 1, Num 1001]]"
    and c1: "date_now s1 = example_clock" "date_reads s1 = 2"
    using sampleMouse_step[OF f(2) f(1)] by (auto simp: entry_at_Tup f)
  obtain s2 where s2: "handleMouseMove (example_move 2 2) s1 = Inr s2"
    and m2: "live_array r_mouseMovements s2 = Some [Tup [Num 1, Num 1, Num 1001]]"
    and p2: "st_mousePosition s2 = Some (2, 2, 1002)"
    using handleMouseMove_step[of "example_move 2 2" s1 r_mouseMovements] m1 c1
    by (auto simp: example_move_def Event_def example_clock_def)
  obtain s3 where s3: "sampleMouse s2 = Inr s3"
    and m3: "live_array r_mouseMovements s3 =
               Some [Tup [Num 1, Num 1, Num 1001], Tup [Num 2, Num 2, Num 1002]]"
    using sampleMouse_step[OF m2 p2] by (auto simp: entry_at_Tup)
  show ?thesis
    using f s1 s2 s3 p2 m3 by (simp add: state_of_def)
qed

section \<open>Handlers leave result and time objects alone\<close>

lemma grows_refl: "grows s s"
  by (simp add: grows_def)

lemma grows_trans: "grows s s' \<Longrightarrow> grows s' s'' \<Longrightarrow> grows s s''"
  by (auto simp: grows_def)

lemma grows_report: "grows s (state_of r) \<Longrightarrow> grows s (report r)"
  by (auto simp: grows_def report_def state_of_def split: sum.splits prod.splits)

lemma upd_array_keeps:
  assumes "get_array h a = Some xs"
  shows "get_results (h[a := ArrayObj ys]) b = get_results h b"
    and "get_time (h[a := ArrayObj ys]) b = get_time h b"
    and "get_clicks (h[a := ArrayObj ys]) b = get_clicks h b"
    and "get_userinfo (h[a := ArrayObj ys]) b = get_userinfo h b"
  using get_array_bound[OF assms]
  by (auto simp: get_results_def get_time_def get_clicks_def get_userinfo_def nth_list_update)

lemma upd_clicks_keeps:
  assumes "get_clicks h a = Some nd"
  shows "get_results (h[a := ClicksObj n d]) b = get_results h b"
    and "get_time (h[a := ClicksObj n d]) b = get_time h b"
    and "get_array (h[a := ClicksObj n d]) b = get_array h b"
    and "get_userinfo (h[a := ClicksObj n d]) b = get_userinfo h b"
  using get_clicks_bound[OF assms]
  by (auto simp: get_results_def get_time_def get_array_def get_userinfo_def nth_list_update)

lemma upd_time_keeps:
  assumes "get_time h a = Some tm"
  shows "get_results (h[a := TimeObj st cu sp]) b = get_results h b"
    and "get_array (h[a := TimeObj st cu sp]) b = get_array h b"
    and "get_clicks (h[a := TimeObj st cu sp]) b = get_clicks h b"
    and "get_userinfo (h[a := TimeObj st cu sp]) b = get_userinfo h b"
  using get_time_bound[OF assms]
  by (auto simp: get_results_def get_array_def get_clicks_def get_userinfo_def nth_list_update)

lemma grows_push_to: "grows s (state_of (push_to a mk s))"
  by (auto simp: grows_def push_to_def state_of_def getTimestamp_def upd_array_keeps
      split: option.splits)

lemma grows_push_signal: "grows s (state_of (push_signal fld mk s))"
  using grows_push_to by (auto simp: push_signal_def state_of_def grows_refl split: option.splits)

lemma grows_handleMouseMove: "grows s (state_of (handleMouseMove e s))"
  by (simp add: grows_def handleMouseMove_def state_of_def getTimestamp_def)

lemma grows_clicks_upd:
  "get_clicks (heap s) c = Some nd \<Longrightarrow> grows s (s\<lparr>heap := (heap s)[c := ClicksObj n d]\<rparr>)"
  by (simp add: grows_def upd_clicks_keeps)

lemma grows_handleClick: "grows s (state_of (handleClick e s))"
proof (cases "live s")
  case None
  then show ?thesis by (simp add: handleClick_def state_of_def grows_refl)
next
  case (Some ro)
  show ?thesis
  proof (cases "get_clicks (heap s) (r_clicks ro)")
    case None
    with Some show ?thesis by (simp add: handleClick_def state_of_def grows_refl)
  next
    case c: (Some nd)
    obtain n d where nd: "nd = (n, d)" by (cases nd)
    show ?thesis
      using Some c nd
      by (simp add: handleClick_def) (rule grows_trans[OF grows_clicks_upd[OF c] grows_push_to])
  qed
qed

lemma grows_sampleMouse: "grows s (state_of (sampleMouse s))"
  by (auto simp: grows_def sampleMouse_def state_of_def upd_array_keeps split: option.splits)

lemma grows_run_handler: "grows s (state_of (run_handler h e s))"
proof (cases h)
  case (TouchH c)
  then show ?thesis
    using grows_push_signal by (auto simp: state_of_def grows_refl split: list.splits)
next
  case (WrappedH c name uh)
  have "grows s (state_of (push_signal r_customEvents (\<lambda>t. CustomEvent name (detail e) t) s))"
    by (rule grows_push_signal)
  with WrappedH show ?thesis
    by (auto simp: state_of_def split: sum.splits option.splits)
next
  case HandleFormSubmit
  have "state_of (handleFormSubmit e s) =
        state_of (push_signal r_formInteractions (\<lambda>t. Tup [Str (target_name e), Num t]) s)"
    by (simp add: handleFormSubmit_def state_of_def split: sum.splits)
  with HandleFormSubmit show ?thesis by (simp add: grows_push_signal)
qed (simp_all add: grows_handleMouseMove grows_handleClick grows_push_signal)

lemma grows_invoke: "grows s (invoke e l s)"
  by (auto simp: invoke_def grows_refl intro: grows_report grows_run_handler split: prod.splits)

lemma grows_fold_invoke: "grows s (fold (invoke e) ls s)"
proof (induction ls arbitrary: s)
  case Nil
  show ?case by (simp add: grows_refl)
next
  case (Cons l ls)
  show ?case using grows_trans[OF grows_invoke Cons.IH] by simp
qed

lemma grows_dispatchEvent: "grows s (dispatchEvent e s)"
  unfolding dispatchEvent_def fold_append comp_def
  by (rule grows_trans[OF grows_fold_invoke grows_fold_invoke])

lemma grows_fold_media:
  "grows s (fold (\<lambda>m s. case m of (el', ty, h) \<Rightarrow>
              if el' = el \<and> ty = ev_type e then report (run_handler h e s) else s) ms s)"
proof (induction ms arbitrary: s)
  case Nil
  show ?case by (simp add: grows_refl)
next
  case (Cons m ms)
  have "grows s (case m of (el', ty, h) \<Rightarrow>
              if el' = el \<and> ty = ev_type e then report (run_handler h e s) else s)"
    by (auto simp: grows_refl intro: grows_report grows_run_handler split: prod.splits)
  from grows_trans[OF this Cons.IH] show ?case by simp
qed

lemma grows_dispatchMedia: "grows s (dispatchMedia el e s)"
  by (simp add: dispatchMedia_def grows_fold_media)

lemma grows_environment: "grows s (s\<lparr>environment := v\<rparr>)"
  by (simp add: grows_def)

lemma grows_history_call: "grows s (history_call push url s)"
  unfolding history_call_def Let_def
  by (auto split: histfn.splits
      intro: grows_environment grows_trans[OF grows_environment grows_trans[OF grows_dispatchEvent grows_dispatchEvent]])

lemma grows_config: "grows s (config nc s)"
  by (simp add: grows_def config_def)

lemma grows_registerCustomEvent: "grows s (registerCustomEvent n uh s)"
  by (simp add: grows_def registerCustomEvent_def new_closure_def addListener_def)

lemma get_results_appendI: "get_results h a = Some ro \<Longrightarrow> get_results (h @ xs) a = Some ro"
  using get_results_append get_results_bound by metis

lemma get_time_appendI: "get_time h a = Some tm \<Longrightarrow> get_time (h @ xs) a = Some tm"
  using get_time_append get_time_bound by metis

lemma grows_append: "grows s (s\<lparr>heap := heap s @ xs\<rparr>)"
  by (simp add: grows_def get_results_appendI get_time_appendI)

lemma grows_getResults: "grows s (snd (getResults s))"
proof (cases "getResults s = (None, s)")
  case True
  then show ?thesis by (simp add: grows_refl)
next
  case False
  then obtain a xs where "getResults s = (Some a, s\<lparr>heap := heap s @ xs\<rparr>)"
    by (auto simp: getResults_def structuredClone_def Let_def split: option.splits prod.splits if_splits)
  then show ?thesis by (simp add: grows_append)
qed

section \<open>The rebuilt buffer\<close>

lemma resetResults_frame:
  "st_config (resetResults s) = st_config s"
  "st_active (resetResults s) = st_active s"
  "st_mousePosition (resetResults s) = st_mousePosition s"
  "timers (resetResults s) = timers s"
  "st_intervals (resetResults s) = st_intervals s"
  "delivered (resetResults s) = delivered s"
  "date_now (resetResults s) = date_now s"
  "date_reads (resetResults s) = date_reads s"
  "win_listeners (resetResults s) = win_listeners s"
  "st_listeners (resetResults s) = st_listeners s"
  by (simp_all add: resetResults_def Let_def)

lemma resetResults_old:
  "length (heap s) \<le> length (heap (resetResults s))"
  "a < length (heap s) \<Longrightarrow> heap (resetResults s) ! a = heap s ! a"
  by (simp_all add: resetResults_def Let_def nth_append)

lemma resetResults_root:
  "\<exists>r ro. st_results (resetResults s) = Some r \<and> length (heap s) \<le> r \<and>
     get_results (heap (resetResults s)) r = Some ro \<and>
     get_time (heap (resetResults s)) (r_time ro) = Some (0, 0, 0) \<and>
     r_userInfo ro = (if userInfo (st_config s) then Some (length (heap s)) else None)"
  by (simp add: resetResults_def Let_def get_results_def get_time_def nth_append)

lemma resetResults_live:
  "live_time (resetResults s) = Some (0, 0, 0)"
  "live_clicks (resetResults s) = Some (0, [])"
  "live_array r_mouseMovements (resetResults s) = Some []"
  "live_array r_mouseScroll (resetResults s) = Some []"
  "live_array r_keyboardActivities (resetResults s) = Some []"
  "live_array r_navigationHistory (resetResults s) = Some []"
  "live_array r_formInteractions (resetResults s) = Some []"
  "live_array r_touchEvents (resetResults s) = Some []"
  "live_array r_mediaInteractions (resetResults s) = Some []"
  "live_array r_windowSizes (resetResults s) = Some []"
  "live_array r_visibilityChanges (resetResults s) = Some []"
  "live_array r_customEvents (resetResults s) = Some []"
  by (simp_all add: resetResults_def Let_def view_defs nth_append)


lemma clear_preserving_frame:
  "st_config (clear_preserving ro s) = st_config s"
  "st_active (clear_preserving ro s) = st_active s"
  "st_mousePosition (clear_preserving ro s) = st_mousePosition s"
  "timers (clear_preserving ro s) = timers s"
  "st_intervals (clear_preserving ro s) = st_intervals s"
  "delivered (clear_preserving ro s) = delivered s"
  "date_now (clear_preserving ro s) = date_now s"
  "date_reads (clear_preserving ro s) = date_reads s"
  "win_listeners (clear_preserving ro s) = win_listeners s"
  "st_listeners (clear_preserving ro s) = st_listeners s"
  by (simp_all add: clear_preserving_def assign_userInfo_def resetResults_def Let_def
      get_results_def nth_append)

lemma clear_preserving_old:
  "length (heap s) \<le> length (heap (clear_preserving ro s))"
  "a < length (heap s) \<Longrightarrow> heap (clear_preserving ro s) ! a = heap s ! a"
  by (simp_all add: clear_preserving_def assign_userInfo_def resetResults_def Let_def
      get_results_def nth_append)

lemma clear_preserving_root:
  "\<exists>r ro'. st_results (clear_preserving ro s) = Some r \<and> length (heap s) \<le> r \<and>
     get_results (heap (clear_preserving ro s)) r = Some ro' \<and>
     get_time (heap (clear_preserving ro s)) (r_time ro') = Some (0, 0, 0) \<and>
     (userInfo (st_config s) \<longrightarrow> r_userInfo ro' = r_userInfo ro)"
  by (simp add: clear_preserving_def assign_userInfo_def resetResults_def Let_def
      get_results_def get_time_def nth_append)

lemma clear_preserving_live:
  "live_time (clear_preserving ro s) = Some (0, 0, 0)"
  "live_clicks (clear_preserving ro s) = Some (0, [])"
  "live_array r_mouseMovements (clear_preserving ro s) = Some []"
  "live_array r_mouseScroll (clear_preserving ro s) = Some []"
  "live_array r_keyboardActivities (clear_preserving ro s) = Some []"
  "live_array r_navigationHistory (clear_preserving ro s) = Some []"
  "live_array r_formInteractions (clear_preserving ro s) = Some []"
  "live_array r_touchEvents (clear_preserving ro s) = Some []"
  "live_array r_mediaInteractions (clear_preserving ro s) = Some []"
  "live_array r_windowSizes (clear_preserving ro s) = Some []"
  "live_array r_visibilityChanges (clear_preserving ro s) = Some []"
  "live_array r_customEvents (clear_preserving ro s) = Some []"
  by (simp_all add: clear_preserving_def assign_userInfo_def resetResults_def Let_def view_defs
      nth_append)

section \<open>The flush\<close>

lemma processResults_null:
  "live s = None \<Longrightarrow> processResults s = Inl (TypeError, s)"
  by (simp add: processResults_def)

lemma processResults_live:
  assumes "live s = Some ro" "get_time (heap s) (r_time ro) = Some (st, cu, sp)"
  shows "processResults s =
           consume ro (length (heap s))
             (s\<lparr> date_reads := Suc (date_reads s),
                  heap := (heap s)[r_time ro := TimeObj st (date_now s (date_reads s)) sp]
                            @ [ResultsObj ro],
                  delivered := delivered s @ [length (heap s)] \<rparr>)"
  using assms
  by (simp add: processResults_def deliver_def copy_results_def stamp_current_def
      set_currentTime_def getTimestamp_def)

lemma consume_cases:
  "(\<exists>e. consume ro snap s = Inl (e, s) \<and> processData (st_config s) (heap s) snap = Some e) \<or>
   (consume ro snap s = Inr s \<and> processData (st_config s) (heap s) snap = None \<and>
      \<not> clearAfterProcess (st_config s)) \<or>
   (consume ro snap s = Inr (clear_preserving ro s) \<and>
      processData (st_config s) (heap s) snap = None \<and> clearAfterProcess (st_config s))"
  by (auto simp: consume_def split: option.splits)


lemma live_Some:
  "live s = Some ro \<longleftrightarrow> (\<exists>r. st_results s = Some r \<and> get_results (heap s) r = Some ro)"
  by (auto simp: live_def split: option.splits)

lemma processResults_Inr:
  assumes "processResults s = Inr s'"
  obtains ro st cu sp where "live s = Some ro"
    and "get_time (heap s) (r_time ro) = Some (st, cu, sp)"
    and "consume ro (length (heap s))
           (s\<lparr> date_reads := Suc (date_reads s),
                heap := (heap s)[r_time ro := TimeObj st (date_now s (date_reads s)) sp]
                          @ [ResultsObj ro],
                delivered := delivered s @ [length (heap s)] \<rparr>) = Inr s'"
proof (cases "live s")
  case None
  with assms show ?thesis by (simp add: processResults_null)
next
  case (Some ro)
  show ?thesis
  proof (cases "get_time (heap s) (r_time ro)")
    case None
    with Some assms show ?thesis by (simp add: processResults_def)
  next
    case t: (Some tm)
    obtain st cu sp where tm: "tm = (st, cu, sp)" by (cases tm)
    show ?thesis
      using that[OF Some t[unfolded tm]] processResults_live[OF Some t[unfolded tm]] assms
      by simp
  qed
qed

text \<open>
  C4. With \<^verbatim>\<open>clearAfterProcess\<close> and \<^verbatim>\<open>userInfo\<close> both set, a flush that
  completes (the buffer exists and the consumer returns) leaves the live buffer with the
  \<^verbatim>\<open>userInfo\<close> it had before the flush, a click count of 0 and every event sequence
  empty.
\<close>

theorem flush_preserves_userInfo:
  assumes clr: "clearAfterProcess (st_config s)"
    and ui: "userInfo (st_config s)"
    and ok: "processResults s = Inr s'"
    and v: "live_userInfo s = Some v"
  shows "live_userInfo s' = Some v \<and> live_clicks s' = Some (0, []) \<and>
         live_array r_mouseMovements s' = Some [] \<and> live_array r_mouseScroll s' = Some [] \<and>
         live_array r_keyboardActivities s' = Some [] \<and>
         live_array r_navigationHistory s' = Some [] \<and>
         live_array r_formInteractions s' = Some [] \<and> live_array r_touchEvents s' = Some [] \<and>
         live_array r_mediaInteractions s' = Some [] \<and> live_array r_windowSizes s' = Some [] \<and>
         live_array r_visibilityChanges s' = Some [] \<and> live_array r_customEvents s' = Some []"
proof -
  from ok obtain ro st cu sp where l: "live s = Some ro"
    and t: "get_time (heap s) (r_time ro) = Some (st, cu, sp)"
    and c: "consume ro (length (heap s))
           (s\<lparr> date_reads := Suc (date_reads s),
                heap := (heap s)[r_time ro := TimeObj st (date_now s (date_reads s)) sp]
                          @ [ResultsObj ro],
                delivered := delivered s @ [length (heap s)] \<rparr>) = Inr s'"
    by (rule processResults_Inr)
  define s2 where "s2 = s\<lparr> date_reads := Suc (date_reads s),
                heap := (heap s)[r_time ro := TimeObj st (date_now s (date_reads s)) sp]
                          @ [ResultsObj ro],
                delivered := delivered s @ [length (heap s)] \<rparr>"
  have cfg: "st_config s2 = st_config s" by (simp add: s2_def)
  have s': "s' = clear_preserving ro s2"
    using consume_cases[of ro "length (heap s)" s2] c clr cfg unfolding s2_def[symmetric]
    by auto
  from l obtain r where r: "st_results s = Some r" "get_results (heap s) r = Some ro"
    by (auto simp: live_Some)
  obtain r' ro' where r': "st_results s' = Some r'" "get_results (heap s') r' = Some ro'"
    and u': "r_userInfo ro' = r_userInfo ro"
    using clear_preserving_root[of ro s2] ui cfg unfolding s' by auto
  have "live_userInfo s' = Some v"
  proof (cases "r_userInfo ro")
    case None
    with v r r' u' show ?thesis by (simp add: live_userInfo_def obj_userInfo_def)
  next
    case (Some u)
    with v r obtain w where w: "get_userinfo (heap s) u = Some w" "v = Some w"
      by (auto simp: live_userInfo_def obj_userInfo_def split: option.splits)
    note ub = get_userinfo_bound[OF w(1)]
    have "u < length (heap s2)" using ub by (simp add: s2_def)
    then have "heap s' ! u = heap s2 ! u" unfolding s' by (rule clear_preserving_old)
    also have "\<dots> = heap s ! u"
      using ub get_time_bound[OF t] by (auto simp: s2_def nth_append nth_list_update)
    finally have "get_userinfo (heap s') u = Some w"
      using ub clear_preserving_old(1)[of s2 ro] \<open>u < length (heap s2)\<close>
      unfolding s' by (simp add: get_userinfo_def)
    with Some r' u' w show ?thesis by (simp add: live_userInfo_def obj_userInfo_def)
  qed
  then show ?thesis unfolding s' by (simp add: clear_preserving_live)
qed


lemma example_clicked_fields:
  "st_config example_clicked = DEFAULT_CONFIG"
  "st_results example_clicked = Some 14"
  "date_now example_clicked = example_clock"
  "date_reads example_clicked = 2"
  by (simp_all add: example_clicked_def handleClick_def push_to_def getTimestamp_def live_def
      state_of_def example_started_fields example_started_store get_array_upd)

lemma example_clicked_heap:
  "heap example_clicked =
     (heap example_started)[3 := ClicksObj 1 2,
        2 := ArrayObj [Tup [Num 10, Num 20, Str ''html > body > a.btn#go'', Num 1001]]]"
  by (simp_all add: example_clicked_def handleClick_def push_to_def getTimestamp_def live_def
      state_of_def example_started_fields example_started_store get_array_upd click_path
      example_click_def node_of_def example_clock_def)

lemma example_clicked_store:
  "get_results (heap example_clicked) 14 =
     Some \<lparr> r_userInfo = Some 0, r_time = 1, r_clicks = 3, r_mouseMovements = 4,
            r_mouseScroll = 5, r_keyboardActivities = 6, r_navigationHistory = 7,
            r_formInteractions = 8, r_touchEvents = 9, r_mediaInteractions = 10,
            r_windowSizes = 11, r_visibilityChanges = 12, r_customEvents = 13 \<rparr>"
  "get_time (heap example_clicked) 1 = Some (1000, 0, 0)"
  "get_time (heap example_clicked) (Suc 0) = Some (1000, 0, 0)"
  "get_clicks (heap example_clicked) 3 = Some (1, 2)"
  "get_array (heap example_clicked) 2 =
     Some [Tup [Num 10, Num 20, Str ''html > body > a.btn#go'', Num 1001]]"
  "get_userinfo (heap example_clicked) 0 =
     Some \<lparr> ui_windowSize = (800, 600), ui_appCodeName = ''Mozilla'',
            ui_appName = ''Netscape'', ui_vendor = ''Acme'', ui_platform = ''Linux'',
            ui_userAgent = ''UA'' \<rparr>"
  by (simp_all add: example_clicked_heap get_results_upd get_time_upd get_clicks_upd
      get_array_upd get_userinfo_upd example_started_fields example_started_store)

theorem flush_preserves_userInfo_witness:
  "clearAfterProcess (st_config example_clicked) \<and> userInfo (st_config example_clicked) \<and>
   processResults example_clicked = Inr (state_of (processResults example_clicked)) \<and>
   live_clicks example_clicked =
     Some (1, [Tup [Num 10, Num 20, Str ''html > body > a.btn#go'', Num 1001]]) \<and>
   live_userInfo example_clicked =
     Some (Some \<lparr> ui_windowSize = (800, 600), ui_appCodeName = ''Mozilla'',
            ui_appName = ''Netscape'', ui_vendor = ''Acme'', ui_platform = ''Linux'',
            ui_userAgent = ''UA'' \<rparr>) \<and>
   live_userInfo (state_of (processResults example_clicked)) =
     Some (Some \<lparr> ui_windowSize = (800, 600), ui_appCodeName = ''Mozilla'',
            ui_appName = ''Netscape'', ui_vendor = ''Acme'', ui_platform = ''Linux'',
            ui_userAgent = ''UA'' \<rparr>) \<and>
   live_clicks (state_of (processResults example_clicked)) = Some (0, []) \<and>
   live_array r_mouseMovements (state_of (processResults example_clicked)) = Some []"
proof -
  have c: "clearAfterProcess (st_config example_clicked)" "userInfo (st_config example_clicked)"
    by (simp_all add: example_clicked_fields DEFAULT_CONFIG_def)
  have l: "live example_clicked =
     Some \<lparr> r_userInfo = Some 0, r_time = 1, r_clicks = 3, r_mouseMovements = 4,
            r_mouseScroll = 5, r_keyboardActivities = 6, r_navigationHistory = 7,
            r_formInteractions = 8, r_touchEvents = 9, r_mediaInteractions = 10,
            r_windowSizes = 11, r_visibilityChanges = 12, r_customEvents = 13 \<rparr>"
    by (simp add: live_def example_clicked_fields example_clicked_store)
  have t: "get_time (heap example_clicked)
             (r_time \<lparr> r_userInfo = Some 0, r_time = 1, r_clicks = 3, r_mouseMovements = 4,
            r_mouseScroll = 5, r_keyboardActivities = 6, r_navigationHistory = 7,
            r_formInteractions = 8, r_touchEvents = 9, r_mediaInteractions = 10,
            r_windowSizes = 11, r_visibilityChanges = 12, r_customEvents = 13 \<rparr>) =
           Some (1000, 0, 0)"
    by (simp add: example_clicked_store)
  have ok: "processResults example_clicked = Inr (state_of (processResults example_clicked))"
    unfolding processResults_live[OF l t]
    by (simp add: consume_def state_of_def example_clicked_fields DEFAULT_CONFIG_def)
  have k: "live_clicks example_clicked =
     Some (1, [Tup [Num 10, Num 20, Str ''html > body > a.btn#go'', Num 1001]])"
    by (simp add: live_clicks_def obj_clicks_def example_clicked_fields example_clicked_store)
  have v: "live_userInfo example_clicked =
     Some (Some \<lparr> ui_windowSize = (800, 600), ui_appCodeName = ''Mozilla'',
            ui_appName = ''Netscape'', ui_vendor = ''Acme'', ui_platform = ''Linux'',
            ui_userAgent = ''UA'' \<rparr>)"
    by (simp add: live_userInfo_def obj_userInfo_def example_clicked_fields example_clicked_store)
  show ?thesis
    using c ok k v flush_preserves_userInfo[OF c ok v] by simp
qed

section \<open>Timers armed by \<^verbatim>\<open>start\<close>\<close>

lemma piece_timers:
  "timers (start_clicks s) = timers s \<and> next_timer (start_clicks s) = next_timer s"
  "timers (start_mouseScroll s) = timers s \<and> next_timer (start_mouseScroll s) = next_timer s"
  "timers (start_windowResize s) = timers s \<and> next_timer (start_windowResize s) = next_timer s"
  "timers (start_visibilitychange s) = timers s \<and>
     next_timer (start_visibilitychange s) = next_timer s"
  "timers (start_keyboardActivity s) = timers s \<and>
     next_timer (start_keyboardActivity s) = next_timer s"
  "timers (start_pageNavigation s) = timers s \<and> next_timer (start_pageNavigation s) = next_timer s"
  "timers (start_formInteractions s) = timers s \<and>
     next_timer (start_formInteractions s) = next_timer s"
  "timers (start_touchEvents s) = timers s \<and> next_timer (start_touchEvents s) = next_timer s"
  by (simp_all add: start_clicks_def start_mouseScroll_def start_windowResize_def
      start_visibilitychange_def start_keyboardActivity_def start_pageNavigation_def
      start_formInteractions_def start_touchEvents_def addListener_def new_closure_def
      patchHistoryMethods_def)

lemma fold_track_timers:
  "timers (fold trackMediaElement els s) = timers s \<and>
   next_timer (fold trackMediaElement els s) = next_timer s"
  by (induction els arbitrary: s) (simp_all add: trackMediaElement_def new_closure_def)

lemma audioVideo_timers:
  "timers (start_audioVideoInteraction s) = timers s \<and>
   next_timer (start_audioVideoInteraction s) = next_timer s"
  by (simp add: start_audioVideoInteraction_def fold_track_timers)

lemma mouseMovement_timers:
  "timers (start_mouseMovement s) =
     timers s @ (if mouseMovement (st_config s)
                 then [(next_timer s, SampleMouse, mouseMovementInterval (st_config s) * 1000)]
                 else [])"
  by (simp add: start_mouseMovement_def addListener_def setInterval_def)

lemma processTime_timers:
  "timers (start_processTime s) =
     timers s @ (if processTime (st_config s) \<noteq> 0
                 then [(next_timer s, Flush, processTime (st_config s) * 1000)] else [])"
  by (simp add: start_processTime_def setInterval_def)

lemma keeps_config: "keeps s s' \<Longrightarrow> st_config s' = st_config s"
  by (simp add: keeps_def)

lemma subscribe_all_timers:
  "\<exists>n. timers (subscribe_all s) =
     timers s @
     (if mouseMovement (st_config s)
      then [(next_timer s, SampleMouse, mouseMovementInterval (st_config s) * 1000)] else []) @
     (if processTime (st_config s) \<noteq> 0
      then [(n, Flush, processTime (st_config s) * 1000)] else [])"
proof -
  define s1 where "s1 = start_mouseMovement s"
  define s2 where "s2 = start_audioVideoInteraction (start_touchEvents
       (start_formInteractions (start_pageNavigation (start_keyboardActivity
         (start_visibilitychange (start_windowResize (start_mouseScroll (start_clicks s1))))))))"
  have k: "keeps s s2"
    unfolding s2_def s1_def by (intro keeps_pieces keeps_refl)
  have t: "timers s2 = timers s1"
    unfolding s2_def by (simp add: piece_timers audioVideo_timers)
  have "subscribe_all s = start_processTime s2"
    by (simp add: subscribe_all_def s2_def s1_def)
  then show ?thesis
    using t keeps_config[OF k] by (auto simp: processTime_timers mouseMovement_timers s1_def)
qed

section \<open>A fresh session\<close>

lemma stamp_start_resetResults:
  "live_time (stamp_start (resetResults s)) = Some (date_now s (date_reads s), 0, 0)"
  "live_clicks (stamp_start (resetResults s)) = Some (0, [])"
  "live_array r_mouseMovements (stamp_start (resetResults s)) = Some []"
  "date_reads (stamp_start (resetResults s)) = Suc (date_reads s)"
  "date_now (stamp_start (resetResults s)) = date_now s"
  "st_mousePosition (stamp_start (resetResults s)) = st_mousePosition s"
  "st_config (stamp_start (resetResults s)) = st_config s"
  "st_active (stamp_start (resetResults s)) = st_active s"
  "timers (stamp_start (resetResults s)) = timers s"
  "delivered (stamp_start (resetResults s)) = delivered s"
  by (simp_all add: stamp_start_def resetResults_def Let_def live_def set_startTime_def
      getTimestamp_def view_defs nth_append)

lemma keeps_views:
  assumes "keeps s s'"
  shows "live_time s' = live_time s" "live_clicks s' = live_clicks s"
    "live_array fld s' = live_array fld s" "live_userInfo s' = live_userInfo s"
    "live s' = live s"
  using assms by (simp_all add: keeps_def live_time_def live_clicks_def live_array_def
      live_userInfo_def live_def cong: option.case_cong)

lemma start_idle:
  assumes "\<not> st_active s"
  shows "live_time (start s) = Some (date_now s (date_reads s), 0, 0)"
    and "live_clicks (start s) = Some (0, [])"
    and "live_array r_mouseMovements (start s) = Some []"
    and "date_reads (start s) = Suc (date_reads s)"
    and "date_now (start s) = date_now s"
    and "st_mousePosition (start s) = st_mousePosition s"
    and "st_config (start s) = st_config s"
    and "st_active (start s)"
    and "delivered (start s) = delivered s"
proof -
  define s0 where "s0 = stamp_start (resetResults (s\<lparr>st_active := True\<rparr>))"
  have st: "start s = subscribe_all s0" using assms by (simp add: start_def s0_def)
  note k = keeps_subscribe_all[of s0]
  note v = keeps_views[OF k]
  show "live_time (start s) = Some (date_now s (date_reads s), 0, 0)"
    "live_clicks (start s) = Some (0, [])"
    "live_array r_mouseMovements (start s) = Some []"
    unfolding st v by (simp_all add: s0_def stamp_start_resetResults)
  show "date_reads (start s) = Suc (date_reads s)" "date_now (start s) = date_now s"
    "st_mousePosition (start s) = st_mousePosition s" "st_config (start s) = st_config s"
    "st_active (start s)" "delivered (start s) = delivered s"
    using k unfolding st by (simp_all add: keeps_def s0_def stamp_start_resetResults)
qed

lemma start_mousePosition: "st_mousePosition (start s) = st_mousePosition s"
  by (cases "st_active s") (simp_all add: start_idle, simp add: start_def)

section \<open>What a flush and \<^verbatim>\<open>stop\<close> leave alone\<close>

lemma processResults_outcome:
  "state_of (processResults s) = s \<or>
   (\<exists>ro st cu sp. live s = Some ro \<and> get_time (heap s) (r_time ro) = Some (st, cu, sp) \<and>
      (state_of (processResults s) =
         s\<lparr> date_reads := Suc (date_reads s),
             heap := (heap s)[r_time ro := TimeObj st (date_now s (date_reads s)) sp]
                       @ [ResultsObj ro],
             delivered := delivered s @ [length (heap s)] \<rparr> \<or>
       state_of (processResults s) =
         clear_preserving ro
           (s\<lparr> date_reads := Suc (date_reads s),
               heap := (heap s)[r_time ro := TimeObj st (date_now s (date_reads s)) sp]
                         @ [ResultsObj ro],
               delivered := delivered s @ [length (heap s)] \<rparr>)))"
proof (cases "live s")
  case None
  then show ?thesis by (simp add: processResults_null state_of_def)
next
  case (Some ro)
  show ?thesis
  proof (cases "get_time (heap s) (r_time ro)")
    case None
    with Some show ?thesis by (simp add: processResults_def state_of_def)
  next
    case t: (Some tm)
    obtain st cu sp where tm: "tm = (st, cu, sp)" by (cases tm)
    define s2 where "s2 = s\<lparr> date_reads := Suc (date_reads s),
             heap := (heap s)[r_time ro := TimeObj st (date_now s (date_reads s)) sp]
                       @ [ResultsObj ro],
             delivered := delivered s @ [length (heap s)] \<rparr>"
    have "state_of (processResults s) = s2 \<or> state_of (processResults s) = clear_preserving ro s2"
      using consume_cases[of ro "length (heap s)" s2]
      unfolding processResults_live[OF Some t[unfolded tm]] s2_def[symmetric]
      by (auto simp: state_of_def)
    with Some t tm show ?thesis unfolding s2_def by blast
  qed
qed

lemma processResults_frame:
  "st_mousePosition (state_of (processResults s)) = st_mousePosition s"
  "st_config (state_of (processResults s)) = st_config s"
  "date_now (state_of (processResults s)) = date_now s"
  "st_active (state_of (processResults s)) = st_active s"
  "timers (state_of (processResults s)) = timers s"
  "st_intervals (state_of (processResults s)) = st_intervals s"
  "win_listeners (state_of (processResults s)) = win_listeners s"
  "st_listeners (state_of (processResults s)) = st_listeners s"
  "date_reads s \<le> date_reads (state_of (processResults s))"
  using processResults_outcome[of s] by (auto simp: clear_preserving_frame)

lemma cleanup_frame:
  fixes s :: state
  defines "c \<equiv> restore_history (remove_media_listeners (remove_listeners
                  (clear_intervals (s\<lparr>st_active := False\<rparr>))))"
  shows "heap c = heap s" "st_results c = st_results s" "st_mousePosition c = st_mousePosition s"
    "st_config c = st_config s" "date_now c = date_now s" "date_reads c = date_reads s"
    "\<not> st_active c" "delivered c = delivered s" "st_intervals c = []" "st_listeners c = []"
    "st_mediaElements c = []" "live c = live s"
proof -
  have f: "heap (fold clearInterval is t) = heap t \<and> st_results (fold clearInterval is t) = st_results t \<and>
        st_mousePosition (fold clearInterval is t) = st_mousePosition t \<and>
        st_config (fold clearInterval is t) = st_config t \<and>
        date_now (fold clearInterval is t) = date_now t \<and>
        date_reads (fold clearInterval is t) = date_reads t \<and>
        st_active (fold clearInterval is t) = st_active t \<and>
        delivered (fold clearInterval is t) = delivered t \<and>
        st_listeners (fold clearInterval is t) = st_listeners t \<and>
        win_listeners (fold clearInterval is t) = win_listeners t \<and>
        elem_listeners (fold clearInterval is t) = elem_listeners t \<and>
        st_mediaElements (fold clearInterval is t) = st_mediaElements t \<and>
        st_originalPushState (fold clearInterval is t) = st_originalPushState t \<and>
        st_originalReplaceState (fold clearInterval is t) = st_originalReplaceState t" for "is" t
    by (induction "is" arbitrary: t) (simp_all add: clearInterval_def)
  show "heap c = heap s" "st_results c = st_results s" "st_mousePosition c = st_mousePosition s"
    "st_config c = st_config s" "date_now c = date_now s" "date_reads c = date_reads s"
    "\<not> st_active c" "delivered c = delivered s" "st_intervals c = []" "st_listeners c = []"
    "st_mediaElements c = []"
    by (simp_all add: c_def restore_history_def remove_media_listeners_def remove_listeners_def
        clear_intervals_def f)
  then show "live c = live s" by (simp add: live_def cong: option.case_cong)
qed

lemma final_flush_frame:
  "st_mousePosition (state_of (final_flush s)) = st_mousePosition s"
  "st_config (state_of (final_flush s)) = st_config s"
  "date_now (state_of (final_flush s)) = date_now s"
  "st_active (state_of (final_flush s)) = st_active s"
  "date_reads s \<le> date_reads (state_of (final_flush s))"
proof -
  have a: "st_mousePosition (stamp_stop ro s) = st_mousePosition s \<and>
        st_config (stamp_stop ro s) = st_config s \<and> date_now (stamp_stop ro s) = date_now s \<and>
        st_active (stamp_stop ro s) = st_active s \<and> date_reads s \<le> date_reads (stamp_stop ro s)"
    for ro
    by (simp add: stamp_stop_def getTimestamp_def split: option.splits)
  have b: "state_of (final_flush s) = s \<or>
           (\<exists>ro. state_of (final_flush s) = state_of (processResults (stamp_stop ro s)))"
    by (auto simp: final_flush_def state_of_def split: option.splits)
  show "st_mousePosition (state_of (final_flush s)) = st_mousePosition s"
    "st_config (state_of (final_flush s)) = st_config s"
    "date_now (state_of (final_flush s)) = date_now s"
    "st_active (state_of (final_flush s)) = st_active s"
    using a b by (auto simp: processResults_frame)
  show "date_reads s \<le> date_reads (state_of (final_flush s))"
  proof -
    from b show ?thesis
    proof
      assume "state_of (final_flush s) = s"
      then show ?thesis by simp
    next
      assume "\<exists>ro. state_of (final_flush s) = state_of (processResults (stamp_stop ro s))"
      then obtain ro where e: "state_of (final_flush s) = state_of (processResults (stamp_stop ro s))"
        by blast
      have "date_reads s \<le> date_reads (stamp_stop ro s)" using a by blast
      also have "\<dots> \<le> date_reads (state_of (processResults (stamp_stop ro s)))"
        by (rule processResults_frame)
      finally show ?thesis unfolding e .
    qed
  qed
qed

lemma stop_frame:
  "st_mousePosition (state_of (stop s)) = st_mousePosition s"
  "st_config (state_of (stop s)) = st_config s"
  "date_now (state_of (stop s)) = date_now s"
  "\<not> st_active (state_of (stop s))"
  "date_reads s \<le> date_reads (state_of (stop s))"
proof -
  define c where "c = restore_history (remove_media_listeners (remove_listeners
                  (clear_intervals (s\<lparr>st_active := False\<rparr>))))"
  have e: "state_of (stop s) = (if st_active s then state_of (final_flush c) else s)"
    by (simp add: stop_def c_def state_of_def)
  note cf = cleanup_frame[of s, folded c_def]
  show "st_mousePosition (state_of (stop s)) = st_mousePosition s"
    "st_config (state_of (stop s)) = st_config s"
    "date_now (state_of (stop s)) = date_now s"
    "\<not> st_active (state_of (stop s))"
    unfolding e by (simp_all add: final_flush_frame cf)
  show "date_reads s \<le> date_reads (state_of (stop s))"
    unfolding e using final_flush_frame(5)[of c] by (simp add: cf)
qed

section \<open>Stopping a session\<close>

lemma grows_live_time:
  assumes "grows s s'" "live_time s = Some tm"
  shows "live_time s' = Some tm"
proof -
  from assms(2) obtain r ro where r: "st_results s = Some r" "get_results (heap s) r = Some ro"
    "get_time (heap s) (r_time ro) = Some tm"
    by (auto simp: live_time_def obj_time_def split: option.splits)
  with assms(1) have "st_results s' = Some r" "get_results (heap s') r = Some ro"
    "get_time (heap s') (r_time ro) = Some tm"
    unfolding grows_def by (simp_all del: split_paired_All)
  then show ?thesis by (simp add: live_time_def obj_time_def)
qed

lemma old_cells_reads:
  assumes "length h \<le> length h'" "\<And>a. a < length h \<Longrightarrow> h' ! a = h ! a"
  shows "get_results h a = Some ro \<Longrightarrow> get_results h' a = Some ro"
    and "get_time h a = Some tm \<Longrightarrow> get_time h' a = Some tm"
    and "get_array h a = Some xs \<Longrightarrow> get_array h' a = Some xs"
    and "get_clicks h a = Some nd \<Longrightarrow> get_clicks h' a = Some nd"
    and "get_userinfo h a = Some u \<Longrightarrow> get_userinfo h' a = Some u"
  using assms
  by (auto simp: get_results_def get_time_def get_array_def get_clicks_def get_userinfo_def
      split: if_splits)

lemma stop_active:
  assumes act: "st_active s" and l: "live s = Some ro"
    and t: "get_time (heap s) (r_time ro) = Some (st, cu, sp)"
  shows "date_reads (state_of (stop s)) = date_reads s + 2"
    and "delivered (state_of (stop s)) = delivered s @ [length (heap s)]"
    and "obj_time (heap (state_of (stop s))) (length (heap s)) =
           Some (st, date_now s (Suc (date_reads s)), date_now s (date_reads s))"
proof -
  define c where "c = restore_history (remove_media_listeners (remove_listeners
                  (clear_intervals (s\<lparr>st_active := False\<rparr>))))"
  note cf = cleanup_frame[of s, folded c_def]
  define k where "k = date_reads s"
  define d where "d = stamp_stop ro c"
  define s2 where "s2 = d\<lparr> date_reads := Suc (date_reads d),
       heap := (heap d)[r_time ro := TimeObj st (date_now d (date_reads d)) (date_now s k)]
                 @ [ResultsObj ro],
       delivered := delivered d @ [length (heap d)] \<rparr>"
  note tb = get_time_bound[OF t]
  from l obtain r where r: "st_results s = Some r" "get_results (heap s) r = Some ro"
    by (auto simp: live_Some)
  have lc: "live c = Some ro" "get_time (heap c) (r_time ro) = Some (st, cu, sp)"
    using l t cf by simp_all
  have stop: "stop s = processResults d"
    using act lc by (simp add: stop_def c_def[symmetric] final_flush_def d_def)
  have d: "heap d = (heap s)[r_time ro := TimeObj st cu (date_now s k)]"
    "date_reads d = Suc k" "date_now d = date_now s" "delivered d = delivered s"
    "st_results d = st_results s"
    using lc cf
    by (simp_all add: d_def stamp_stop_def set_stopTime_def getTimestamp_def k_def)
  have ld: "live d = Some ro" "get_time (heap d) (r_time ro) = Some (st, cu, date_now s k)"
    using r tb by (simp_all add: live_def d upd_time_keeps[OF t] get_time_upd)
  have pr: "processResults d = consume ro (length (heap d)) s2"
    unfolding s2_def by (rule processResults_live[OF ld])
  have s2: "date_reads s2 = k + 2" "delivered s2 = delivered s @ [length (heap s)]"
    "length (heap s2) = Suc (length (heap s))"
    by (simp_all add: s2_def d)
  have g: "get_results (heap s2) (length (heap s)) = Some ro"
    "get_time (heap s2) (r_time ro) = Some (st, date_now s (Suc k), date_now s k)"
    using tb by (simp_all add: s2_def d get_results_def get_time_def nth_append)
  consider "state_of (stop s) = s2" | "state_of (stop s) = clear_preserving ro s2"
    using consume_cases[of ro "length (heap d)" s2] unfolding stop pr
    by (auto simp: state_of_def)
  then have "date_reads (state_of (stop s)) = k + 2 \<and>
         delivered (state_of (stop s)) = delivered s @ [length (heap s)] \<and>
         get_results (heap (state_of (stop s))) (length (heap s)) = Some ro \<and>
         get_time (heap (state_of (stop s))) (r_time ro) =
           Some (st, date_now s (Suc k), date_now s k)"
  proof cases
    case 1
    then show ?thesis using s2 g by simp
  next
    case 2
    note old = old_cells_reads[OF clear_preserving_old(1)[of s2 ro] clear_preserving_old(2)[of _ s2 ro]]
    show ?thesis
      unfolding 2 using s2 old(1)[OF _ g(1)] old(2)[OF _ g(2)]
      by (simp add: clear_preserving_frame)
  qed
  then show "date_reads (state_of (stop s)) = date_reads s + 2"
    and "delivered (state_of (stop s)) = delivered s @ [length (heap s)]"
    and "obj_time (heap (state_of (stop s))) (length (heap s)) =
           Some (st, date_now s (Suc (date_reads s)), date_now s (date_reads s))"
    by (simp_all add: k_def obj_time_def)
qed

text \<open>
  C10. Neither \<^verbatim>\<open>stop\<close> nor \<^verbatim>\<open>start\<close> touches the cached mouse sample. So
  when a sample \<open>(x, y, tp)\<close> is cached and \<^verbatim>\<open>mouseMovement\<close> is enabled, then after
  \<^verbatim>\<open>stop()\<close> and \<^verbatim>\<open>start()\<close> the sample is still cached, the sampling timer is
  armed, and its first tick appends \<open>(x, y, tp)\<close> to the new, empty sequence of a buffer
  whose start time is the clock reading of the new \<^verbatim>\<open>start()\<close>. Under a strictly
  increasing clock a \<open>tp\<close> that was read earlier is earlier than that start time.
\<close>

theorem stale_sample_recorded_after_restart:
  assumes mp: "st_mousePosition s = Some (x, y, tp)"
    and mm: "mouseMovement (st_config s)"
  shows "(\<forall>s0. st_mousePosition (state_of (stop s0)) = st_mousePosition s0 \<and>
              st_mousePosition (start s0) = st_mousePosition s0) \<and>
         st_mousePosition (start (state_of (stop s))) = Some (x, y, tp) \<and>
         (\<exists>i. (i, SampleMouse, mouseMovementInterval (st_config s) * 1000)
                \<in> set (timers (start (state_of (stop s))))) \<and>
         live_time (start (state_of (stop s))) =
           Some (date_now s (date_reads (state_of (stop s))), 0, 0) \<and>
         (\<exists>s3. sampleMouse (start (state_of (stop s))) = Inr s3 \<and>
            live_array r_mouseMovements s3 = Some [Tup [Num x, Num y, Num tp]] \<and>
            live_time s3 = Some (date_now s (date_reads (state_of (stop s))), 0, 0)) \<and>
         ((\<forall>i j. i < j \<longrightarrow> date_now s i < date_now s j) \<and> (\<exists>j<date_reads s. tp = date_now s j)
            \<longrightarrow> tp < date_now s (date_reads (state_of (stop s))))"
proof -
  define s1 where "s1 = state_of (stop s)"
  define s0 where "s0 = stamp_start (resetResults (s1\<lparr>st_active := True\<rparr>))"
  have idle: "\<not> st_active s1" unfolding s1_def by (rule stop_frame)
  have s1: "st_mousePosition s1 = Some (x, y, tp)" "st_config s1 = st_config s"
    "date_now s1 = date_now s" "date_reads s \<le> date_reads s1"
    unfolding s1_def using mp by (simp_all add: stop_frame)
  note si = start_idle[OF idle]
  have p2: "st_mousePosition (start s1) = Some (x, y, tp)" using si(6) s1 by simp
  have t2: "live_time (start s1) = Some (date_now s (date_reads s1), 0, 0)"
    using si(1) s1 by simp
  have st: "start s1 = subscribe_all s0" using idle by (simp add: start_def s0_def)
  have "st_config s0 = st_config s" "next_timer s0 = next_timer s1"
    unfolding s0_def using s1
    by (simp_all add: stamp_start_resetResults stamp_start_def resetResults_def Let_def
        getTimestamp_def live_def set_startTime_def split: option.splits)
  then have tm: "\<exists>i. (i, SampleMouse, mouseMovementInterval (st_config s) * 1000)
                \<in> set (timers (start s1))"
    using subscribe_all_timers[of s0] mm unfolding st by auto
  obtain s3 where s3: "sampleMouse (start s1) = Inr s3"
    and m3: "live_array r_mouseMovements s3 = Some [Tup [Num x, Num y, Num tp]]"
    using sampleMouse_step[OF si(3) p2] by auto
  have "grows (start s1) s3" using grows_sampleMouse[of "start s1"] s3 by (simp add: state_of_def)
  from grows_live_time[OF this t2]
  have t3: "live_time s3 = Some (date_now s (date_reads s1), 0, 0)" .
  have late: "tp < date_now s (date_reads s1)"
    if "\<forall>i j. i < j \<longrightarrow> date_now s i < date_now s j" "\<exists>j<date_reads s. tp = date_now s j"
  proof -
    from that(2) obtain j where "j < date_reads s" "tp = date_now s j" by blast
    with s1(4) that(1) show ?thesis by simp
  qed
  show ?thesis
    using p2 tm t2 s3 m3 t3 late unfolding s1_def
    by (auto simp: stop_frame start_mousePosition)
qed

lemma example_moved_live:
  "st_active example_moved"
  "live example_moved =
     Some \<lparr> r_userInfo = Some 0, r_time = 1, r_clicks = 3, r_mouseMovements = 4,
            r_mouseScroll = 5, r_keyboardActivities = 6, r_navigationHistory = 7,
            r_formInteractions = 8, r_touchEvents = 9, r_mediaInteractions = 10,
            r_windowSizes = 11, r_visibilityChanges = 12, r_customEvents = 13 \<rparr>"
  "st_config example_moved = DEFAULT_CONFIG"
  by (simp_all add: live_def example_moved_fields example_started_store example_moved_def
      handleMouseMove_def getTimestamp_def state_of_def example_started_fields)

lemma example_moved_stopped_reads: "date_reads (state_of (stop example_moved)) = 4"
  using stop_active(1)[OF example_moved_live(1,2), of 1000 0 0]
  by (simp add: example_moved_fields example_started_store)

theorem stale_sample_recorded_after_restart_witness:
  "st_mousePosition example_moved = Some (1, 1, 1001) \<and>
   mouseMovement (st_config example_moved) \<and>
   date_now example_moved = example_clock \<and> date_reads example_moved = 2 \<and>
   example_clock 1 = 1001 \<and>
   live_time (start (state_of (stop example_moved))) = Some (1004, 0, 0) \<and>
   (\<exists>s3. sampleMouse (start (state_of (stop example_moved))) = Inr s3 \<and>
      live_array r_mouseMovements s3 = Some [Tup [Num 1, Num 1, Num 1001]] \<and>
      live_time s3 = Some (1004, 0, 0)) \<and>
   (1001::int) < 1004"
proof -
  have h1: "st_mousePosition example_moved = Some (1, 1, 1001)"
    by (rule example_moved_fields)
  have h2: "mouseMovement (st_config example_moved)"
    by (simp add: example_moved_live DEFAULT_CONFIG_def)
  have h3: "\<forall>i j. i < j \<longrightarrow> example_clock i < example_clock j"
    by (simp add: example_clock_def)
  have h4: "\<exists>j<date_reads example_moved. (1001::int) = example_clock j"
    by (rule exI[of _ 1]) (simp add: example_moved_fields example_clock_def)
  show ?thesis
    using h1 h2 h3 h4 stale_sample_recorded_after_restart[OF h1 h2]
    by (simp add: example_moved_stopped_reads example_moved_fields example_clock_def)
qed

section \<open>The time window along a session\<close>

lemma report_fields:
  "heap (report r) = heap (state_of r)"
  "st_results (report r) = st_results (state_of r)"
  "st_active (report r) = st_active (state_of r)"
  "date_now (report r) = date_now (state_of r)"
  "date_reads (report r) = date_reads (state_of r)"
  "delivered (report r) = delivered (state_of r)"
  "timers (report r) = timers (state_of r)"
  "st_intervals (report r) = st_intervals (state_of r)"
  "st_config (report r) = st_config (state_of r)"
  by (simp_all add: report_def state_of_def split: sum.splits prod.splits)

lemma time_ok_report: "time_ok (report r) = time_ok (state_of r)"
  by (simp add: time_ok_def report_fields)

lemma time_ok_grows:
  assumes c: "clock_ok (date_now s)" and t: "time_ok s" and g: "grows s s'"
  shows "time_ok s'"
proof -
  from t obtain r ro st cu sp where r: "st_results s = Some r"
    "get_results (heap s) r = Some ro" "get_time (heap s) (r_time ro) = Some (st, cu, sp)"
    "st \<le> date_now s (date_reads s)"
    unfolding time_ok_def by blast
  from g r have r': "st_results s' = Some r" "get_results (heap s') r = Some ro"
    "get_time (heap s') (r_time ro) = Some (st, cu, sp)"
    unfolding grows_def by (simp_all del: split_paired_All)
  from g have "date_now s' = date_now s" "date_reads s \<le> date_reads s'"
    unfolding grows_def by simp_all
  with c r(4) have "st \<le> date_now s' (date_reads s')"
    unfolding clock_ok_def by (metis order_trans)
  with r' show ?thesis unfolding time_ok_def by blast
qed

lemma time_ok_processResults:
  assumes c: "clock_ok (date_now s)" and t: "time_ok s"
  shows "time_ok (state_of (processResults s))"
proof -
  from t obtain r ro' st' cu' sp' where r: "st_results s = Some r"
    "get_results (heap s) r = Some ro'" "get_time (heap s) (r_time ro') = Some (st', cu', sp')"
    "st' \<le> date_now s (date_reads s)"
    unfolding time_ok_def by blast
  have mono: "date_now s (date_reads s) \<le> date_now s (Suc (date_reads s))"
    and nonneg: "0 \<le> date_now s (Suc (date_reads s))"
    using c unfolding clock_ok_def by simp_all
  from processResults_outcome[of s] show ?thesis
  proof (elim disjE exE conjE)
    assume "state_of (processResults s) = s"
    with t show ?thesis by simp
  next
    fix ro st cu sp
    assume l: "live s = Some ro" and tm: "get_time (heap s) (r_time ro) = Some (st, cu, sp)"
      and e: "state_of (processResults s) =
         s\<lparr> date_reads := Suc (date_reads s),
             heap := (heap s)[r_time ro := TimeObj st (date_now s (date_reads s)) sp]
                       @ [ResultsObj ro],
             delivered := delivered s @ [length (heap s)] \<rparr>"
    from l r have ro: "ro' = ro" by (simp add: live_def)
    note rb = get_results_bound[OF r(2)] and tb = get_time_bound[OF tm]
    have "get_results (heap (state_of (processResults s))) r = Some ro"
      using rb tb r(2) ro
      by (simp add: e get_results_append upd_time_keeps[OF tm])
    moreover have "get_time (heap (state_of (processResults s))) (r_time ro) =
        Some (st, date_now s (date_reads s), sp)"
      using tb by (simp add: e get_time_append get_time_upd)
    moreover have "st \<le> date_now s (Suc (date_reads s))"
      using r(3,4) tm ro mono by simp
    ultimately show ?thesis
      unfolding time_ok_def using r(1) by (simp add: e)
  next
    fix ro st cu sp
    assume e: "state_of (processResults s) =
         clear_preserving ro
           (s\<lparr> date_reads := Suc (date_reads s),
               heap := (heap s)[r_time ro := TimeObj st (date_now s (date_reads s)) sp]
                         @ [ResultsObj ro],
               delivered := delivered s @ [length (heap s)] \<rparr>)"
    show ?thesis
      unfolding e time_ok_def
      using clear_preserving_root[of ro "s\<lparr> date_reads := Suc (date_reads s),
               heap := (heap s)[r_time ro := TimeObj st (date_now s (date_reads s)) sp]
                         @ [ResultsObj ro],
               delivered := delivered s @ [length (heap s)] \<rparr>"] nonneg
      by (auto simp: clear_preserving_frame)
  qed
qed

lemma time_ok_start:
  assumes c: "clock_ok (date_now s)" and idle: "\<not> st_active s"
  shows "time_ok (start s)"
proof -
  from start_idle(1)[OF idle] obtain r ro where
    "st_results (start s) = Some r" "get_results (heap (start s)) r = Some ro"
    "get_time (heap (start s)) (r_time ro) = Some (date_now s (date_reads s), 0, 0)"
    by (auto simp: live_time_def obj_time_def split: option.splits)
  moreover have "date_now s (date_reads s) \<le> date_now (start s) (date_reads (start s))"
    using c by (simp add: start_idle[OF idle] clock_ok_def)
  ultimately show ?thesis unfolding time_ok_def by blast
qed

lemma session_inv_grows: "session_inv s \<Longrightarrow> grows s s' \<Longrightarrow> session_inv s'"
  using time_ok_grows[of s s'] by (auto simp: session_inv_def grows_def)

lemma session_inv_flush: "session_inv s \<Longrightarrow> session_inv (report (processResults s))"
  using time_ok_processResults[of s]
  by (simp add: session_inv_def report_fields time_ok_report processResults_frame)

lemma session_inv_fire: "session_inv s \<Longrightarrow> session_inv (fire i s)"
proof -
  assume i: "session_inv s"
  have "grows s (report (sampleMouse s))" by (rule grows_report[OF grows_sampleMouse])
  from session_inv_grows[OF i this] session_inv_flush[OF i] i
  show ?thesis by (auto simp: fire_def split: list.splits timer_cb.splits)
qed

lemma session_inv_step:
  assumes i: "session_inv s" and a: "a \<noteq> Stop"
  shows "session_inv (step a s)"
proof (cases a)
  case Start
  with i show ?thesis by (simp add: session_inv_def start_def)
next
  case Stop
  with a show ?thesis by simp
next
  case ProcessResults
  with i show ?thesis by (simp add: session_inv_flush)
next
  case (TimerFire n)
  with i show ?thesis by (simp add: session_inv_fire)
next
  case GetConfig
  with i show ?thesis by simp
qed (use i in \<open>auto intro: session_inv_grows[OF i] grows_config grows_registerCustomEvent
      grows_getResults grows_dispatchEvent grows_dispatchMedia grows_environment
      grows_history_call\<close>)

lemma session_inv_run: "session_inv s \<Longrightarrow> Stop \<notin> set acts \<Longrightarrow> session_inv (run acts s)"
  unfolding run_def
proof (induction acts arbitrary: s)
  case Nil
  then show ?case by simp
next
  case (Cons a acts)
  from Cons.prems have "a \<noteq> Stop" "Stop \<notin> set acts" by auto
  with Cons.IH[OF session_inv_step[OF Cons.prems(1) \<open>a \<noteq> Stop\<close>]] show ?case by simp
qed

text \<open>
  C5. A session starts from Idle with \<^verbatim>\<open>start()\<close>, goes through any calls and
  events other than \<^verbatim>\<open>stop()\<close> (flushes that clear the buffer included) and ends
  with \<^verbatim>\<open>stop()\<close>. Under a clock that never runs backwards and never shows a
  negative time, \<^verbatim>\<open>stop()\<close> delivers exactly one more snapshot, and its time window
  satisfies \<open>startTime \<le> stopTime \<le> currentTime\<close>.
\<close>

theorem stop_time_window:
  assumes idle: "\<not> st_active s"
    and mono: "\<forall>i j. i \<le> j \<longrightarrow> date_now s i \<le> date_now s j"
    and nonneg: "\<forall>i. 0 \<le> date_now s i"
    and ns: "Stop \<notin> set acts"
  shows "\<exists>snap st cu sp.
           delivered (run (Start # acts @ [Stop]) s) = delivered (run (Start # acts) s) @ [snap] \<and>
           obj_time (heap (run (Start # acts @ [Stop]) s)) snap = Some (st, cu, sp) \<and>
           st \<le> sp \<and> sp \<le> cu"
proof -
  define b where "b = run (Start # acts) s"
  have c: "clock_ok (date_now s)" using mono nonneg by (simp add: clock_ok_def)
  have "session_inv (start s)"
    using c idle time_ok_start[OF c idle] by (simp add: session_inv_def start_idle)
  then have inv: "session_inv b"
    unfolding b_def using session_inv_run[OF _ ns, of "start s"] by (simp add: run_def)
  then obtain r ro st cu sp where act: "st_active b" and cb: "clock_ok (date_now b)"
    and r: "st_results b = Some r" "get_results (heap b) r = Some ro"
    and t: "get_time (heap b) (r_time ro) = Some (st, cu, sp)"
    and le: "st \<le> date_now b (date_reads b)"
    unfolding session_inv_def time_ok_def by blast
  have l: "live b = Some ro" using r by (simp add: live_def)
  have e: "run (Start # acts @ [Stop]) s = report (stop b)"
    by (simp add: run_def b_def)
  have "date_now b (date_reads b) \<le> date_now b (Suc (date_reads b))"
    using cb unfolding clock_ok_def by simp
  with le show ?thesis
    unfolding e b_def[symmetric]
    using stop_active(2,3)[OF act l t] by (simp add: report_fields)
qed


lemma example_session_final:
  "obj_time (heap (run (example_session @ [Stop]) example_started))
     (last (delivered (run (example_session @ [Stop]) example_started))) =
   Some (0, 1005, 1004)"
  by (simp add: run_def example_session_def dispatchEvent_def invoke_def report_def fire_def
      handleClick_def push_to_def click_path example_click_def node_of_def
      flush_defs stop_defs state_of_def get_array_def get_clicks_def
      obj_time_def nth_append
      example_started_fields example_started_heap example_started_listeners DEFAULT_CONFIG_def
      example_clock_def)

theorem stop_time_window_witness:
  "\<not> st_active (init example_env example_clock) \<and>
   date_now (init example_env example_clock) = example_clock \<and>
   Stop \<notin> set example_session \<and>
   (\<exists>snap st cu sp.
      delivered (run (Start # example_session @ [Stop]) (init example_env example_clock)) =
        delivered (run (Start # example_session) (init example_env example_clock)) @ [snap] \<and>
      obj_time (heap (run (Start # example_session @ [Stop]) (init example_env example_clock)))
        snap = Some (st, cu, sp) \<and> st \<le> sp \<and> sp \<le> cu) \<and>
   obj_time (heap (run (Start # example_session @ [Stop]) (init example_env example_clock)))
     (last (delivered (run (Start # example_session @ [Stop])
        (init example_env example_clock)))) = Some (0, 1005, 1004)"
proof -
  have h1: "\<not> st_active (init example_env example_clock)" by (simp add: init_def)
  have h2: "\<forall>i j. i \<le> j \<longrightarrow> date_now (init example_env example_clock) i
                     \<le> date_now (init example_env example_clock) j"
    by (simp add: init_def example_clock_def)
  have h3: "\<forall>i. 0 \<le> date_now (init example_env example_clock) i"
    by (simp add: init_def example_clock_def)
  have h4: "Stop \<notin> set example_session" by (simp add: example_session_def)
  have e: "run (Start # example_session @ [Stop]) (init example_env example_clock) =
           run (example_session @ [Stop]) example_started"
    by (simp add: run_def example_started_def)
  have h5: "date_now (init example_env example_clock) = example_clock" by (simp add: init_def)
  show ?thesis
    using h1 h4 h5 stop_time_window[OF h1 h2 h3 h4] example_session_final
    unfolding e by simp
qed

section \<open>The periodic flush\<close>

lemma start_idle_timers:
  assumes "\<not> st_active s"
  shows "\<exists>n. timers (start s) =
     timers s @
     (if mouseMovement (st_config s)
      then [(next_timer s, SampleMouse, mouseMovementInterval (st_config s) * 1000)] else []) @
     (if processTime (st_config s) \<noteq> 0
      then [(n, Flush, processTime (st_config s) * 1000)] else [])"
proof -
  define s0 where "s0 = stamp_start (resetResults (s\<lparr>st_active := True\<rparr>))"
  have st: "start s = subscribe_all s0" using assms by (simp add: start_def s0_def)
  have "st_config s0 = st_config s" "timers s0 = timers s" "next_timer s0 = next_timer s"
    unfolding s0_def
    by (simp_all add: stamp_start_resetResults stamp_start_def resetResults_def Let_def
        getTimestamp_def live_def set_startTime_def split: option.splits)
  then show ?thesis using subscribe_all_timers[of s0] unfolding st by (simp cong: if_cong)
qed

lemma fire_no_flush:
  assumes "\<forall>t\<in>set (timers s). fst (snd t) \<noteq> Flush"
  shows "grows s (fire i s)"
proof (cases "filter (\<lambda>t. fst t = i) (timers s)")
  case Nil
  then show ?thesis by (simp add: fire_def grows_refl)
next
  case (Cons t ts)
  then have "t \<in> set (filter (\<lambda>t. fst t = i) (timers s))" by simp
  then have "t \<in> set (timers s)" by simp
  with assms have nf: "fst (snd t) \<noteq> Flush" by blast
  obtain j cb d where t: "t = (j, cb, d)" by (cases t)
  with nf have "cb = SampleMouse" by (cases cb) simp_all
  with Cons t show ?thesis
    by (simp add: fire_def grows_report[OF grows_sampleMouse])
qed

lemma quiet_step:
  assumes act: "st_active s" and nf: "\<forall>t\<in>set (timers s). fst (snd t) \<noteq> Flush"
    and a: "a \<noteq> Stop" "a \<noteq> ProcessResults"
  shows "grows s (step a s)"
proof (cases a)
  case Start
  with act show ?thesis by (simp add: start_def grows_refl)
next
  case (TimerFire i)
  with nf show ?thesis by (simp add: fire_no_flush)
qed (use a in \<open>simp_all add: grows_config grows_registerCustomEvent grows_getResults
      grows_dispatchEvent grows_dispatchMedia grows_environment grows_history_call grows_refl\<close>)

lemma processResults_delivered:
  "\<exists>ds. delivered (state_of (processResults s)) = delivered s @ ds \<and> length ds \<le> 1"
  using processResults_outcome[of s] by (auto simp: clear_preserving_frame)

lemma session_step:
  assumes act: "st_active s" and nf: "\<forall>t\<in>set (timers s). fst (snd t) \<noteq> Flush"
    and a: "a \<noteq> Stop"
  shows "st_active (step a s)" and "timers (step a s) = timers s"
    and "\<exists>ds. delivered (step a s) = delivered s @ ds \<and>
           length ds \<le> count_list [a] ProcessResults"
proof -
  have "st_active (step a s) \<and> timers (step a s) = timers s \<and>
        (\<exists>ds. delivered (step a s) = delivered s @ ds \<and>
           length ds \<le> count_list [a] ProcessResults)"
  proof (cases "a = ProcessResults")
    case True
    with act processResults_delivered[of s] show ?thesis
      by (simp add: report_fields processResults_frame)
  next
    case False
    from quiet_step[OF act nf a False] act show ?thesis by (simp add: grows_def)
  qed
  then show "st_active (step a s)" and "timers (step a s) = timers s"
    and "\<exists>ds. delivered (step a s) = delivered s @ ds \<and>
           length ds \<le> count_list [a] ProcessResults"
    by blast+
qed

lemma session_run:
  assumes "st_active s" "\<forall>t\<in>set (timers s). fst (snd t) \<noteq> Flush" "Stop \<notin> set acts"
  shows "st_active (run acts s) \<and> timers (run acts s) = timers s \<and>
         (\<exists>ds. delivered (run acts s) = delivered s @ ds \<and>
            length ds \<le> count_list acts ProcessResults)"
  using assms unfolding run_def
proof (induction acts arbitrary: s)
  case Nil
  then show ?case by simp
next
  case (Cons a acts)
  from Cons.prems have a: "a \<noteq> Stop" and r: "Stop \<notin> set acts" by auto
  note st = session_step[OF Cons.prems(1,2) a]
  from st(3) obtain d1 where d1: "delivered (step a s) = delivered s @ d1"
    "length d1 \<le> count_list [a] ProcessResults" by blast
  have nf: "\<forall>t\<in>set (timers (step a s)). fst (snd t) \<noteq> Flush"
    using Cons.prems(2) st(2) by simp
  from Cons.IH[OF st(1) nf r] obtain d2 where ih: "st_active (fold step acts (step a s))"
    "timers (fold step acts (step a s)) = timers (step a s)"
    "delivered (fold step acts (step a s)) = delivered (step a s) @ d2"
    "length d2 \<le> count_list acts ProcessResults" by blast
  have "delivered (fold step (a # acts) s) = delivered s @ (d1 @ d2)"
    using d1(1) ih(3) by simp
  moreover have "length (d1 @ d2) \<le> count_list (a # acts) ProcessResults"
    using d1(2) ih(4) by (simp split: if_splits)
  ultimately show ?case using ih(1,2) st(2) by (simp del: count_list.simps)
qed

text \<open>
  C7, as the code has it. The guard of the flush timer is the truthiness of
  \<^verbatim>\<open>processTime\<close>, so among the numbers only 0 disables it. With
  \<^verbatim>\<open>processTime = 0\<close>, \<^verbatim>\<open>start()\<close> from Idle (where no flush timer is armed)
  arms no flush timer, and during the whole session, whatever events and timers fire,
  whatever is reconfigured and however often \<^verbatim>\<open>processResults()\<close> is called, no flush
  timer is armed and a timer that fires hands nothing to the consumer. The snapshots
  delivered during the session come from the explicit calls of \<^verbatim>\<open>processResults()\<close>
  alone: they follow those delivered before, and there is at most one of them for each
  call.
\<close>

theorem no_periodic_flush_when_zero:
  assumes idle: "\<not> st_active s"
    and zero: "processTime (st_config s) = 0"
    and nf: "\<forall>t\<in>set (timers s). fst (snd t) \<noteq> Flush"
    and ns: "Stop \<notin> set acts"
  shows "(\<forall>t\<in>set (timers (run (Start # acts) s)). fst (snd t) \<noteq> Flush) \<and>
         (\<forall>i. delivered (fire i (run (Start # acts) s)) = delivered (run (Start # acts) s)) \<and>
         (\<exists>ds. delivered (run (Start # acts) s) = delivered s @ ds \<and>
            length ds \<le> count_list acts ProcessResults)"
proof -
  have t: "\<forall>t\<in>set (timers (start s)). fst (snd t) \<noteq> Flush"
    using start_idle_timers[OF idle] zero nf by auto
  have e: "run (Start # acts) s = run acts (start s)" by (simp add: run_def)
  note r = session_run[OF start_idle(8)[OF idle] t ns]
  from r t have t': "\<forall>t\<in>set (timers (run acts (start s))). fst (snd t) \<noteq> Flush" by simp
  have "delivered (fire i (run acts (start s))) = delivered (run acts (start s))" for i
    using fire_no_flush[OF t', of i] by (simp add: grows_def)
  with t' r show ?thesis unfolding e by (simp add: start_idle(9)[OF idle])
qed

lemma example_manual_started:
  "start example_manual =
     \<lparr> st_config = DEFAULT_CONFIG\<lparr>processTime := 0\<rparr>, st_active = True,
       st_listeners = st_listeners example_started,
       st_intervals = [1], st_mediaElements = [], st_results = Some 14,
       st_mousePosition = None, st_originalPushState = Native,
       st_originalReplaceState = Native,
       heap = heap example_started,
       win_listeners = win_listeners example_started,
       elem_listeners = [],
       timers = [(1, SampleMouse, 1000)],
       next_timer = 2, next_closure = 6, hist_pushState = Patched,
       hist_replaceState = Patched, environment = example_env, date_now = example_clock,
       date_reads = 1, delivered = [], uncaught = [] \<rparr>"
  unfolding example_started_heap example_started_listeners
  by (simp add: example_manual_def config_def init_def start_defs DEFAULT_CONFIG_def
      example_env_def example_clock_def)

lemma example_manual_delivered:
  "delivered (run example_manual_session (start example_manual)) = [15]"
  unfolding example_manual_started
  by (simp add: run_def example_manual_session_def dispatchEvent_def invoke_def report_def
      fire_def handleClick_def push_to_def click_path example_click_def node_of_def
      sampleMouse_def flush_defs state_of_def get_array_def get_clicks_def nth_append
      example_started_heap example_started_listeners DEFAULT_CONFIG_def example_clock_def)

theorem no_periodic_flush_when_zero_witness:
  "\<not> st_active example_manual \<and>
   processTime (st_config example_manual) = 0 \<and>
   timers example_manual = [] \<and>
   Stop \<notin> set example_manual_session \<and>
   count_list example_manual_session ProcessResults = 1 \<and>
   filter (\<lambda>t. fst (snd t) = Flush)
     (timers (run (Start # example_manual_session) example_manual)) = [] \<and>
   delivered (fire 1 (run (Start # example_manual_session) example_manual)) = [15] \<and>
   delivered (fire 2 (run (Start # example_manual_session) example_manual)) = [15] \<and>
   delivered (run (Start # example_manual_session) example_manual) = [15]"
proof -
  let ?s = "example_manual"
  let ?acts = "example_manual_session"
  have h1: "\<not> st_active ?s" by (simp add: example_manual_def config_def init_def)
  have h2: "processTime (st_config ?s) = 0" by (simp add: example_manual_def config_def)
  have h3: "\<forall>t\<in>set (timers ?s). fst (snd t) \<noteq> Flush"
    by (simp add: example_manual_def config_def init_def)
  have h4: "Stop \<notin> set ?acts" by (simp add: example_manual_session_def)
  have c: "count_list ?acts ProcessResults = 1" by (simp add: example_manual_session_def)
  have d: "timers ?s = []" by (simp add: example_manual_def config_def init_def)
  have e: "delivered (run (Start # ?acts) ?s) = [15]"
    using example_manual_delivered by (simp add: run_def)
  from no_periodic_flush_when_zero[OF h1 h2 h3 h4]
  have f: "\<forall>t\<in>set (timers (run (Start # ?acts) ?s)). fst (snd t) \<noteq> Flush"
    and g: "delivered (fire 1 (run (Start # ?acts) ?s)) = delivered (run (Start # ?acts) ?s)"
      "delivered (fire 2 (run (Start # ?acts) ?s)) = delivered (run (Start # ?acts) ?s)"
    by blast+
  from f have "filter (\<lambda>t. fst (snd t) = Flush) (timers (run (Start # ?acts) ?s)) = []"
    by (simp add: filter_empty_conv)
  with h1 h2 d h4 c g e show ?thesis by simp
qed

lemma example_negative_eval:
  "example_negative =
     \<lparr> st_config = DEFAULT_CONFIG\<lparr>processTime := - 1\<rparr>, st_active = True,
       st_listeners =
         [(HandleMouseMove, ''mousemove'', HandleMouseMove, False),
          (HandleClick, ''click'', HandleClick, False),
          (ScrollH 0, ''scroll'', ScrollH 0, False),
          (ResizeH 1, ''resize'', ResizeH 1, False),
          (VisibilityH 2, ''visibilitychange'', VisibilityH 2, False),
          (KeydownH 3, ''keydown'', KeydownH 3, False),
          (NavH 4, ''locationchange'', NavH 4, False),
          (HandleFormSubmit, ''submit'', HandleFormSubmit, True),
          (TouchH 5, ''touchstart'', TouchH 5, False)],
       st_intervals = [1, 2], st_mediaElements = [], st_results = Some 14,
       st_mousePosition = None, st_originalPushState = Native,
       st_originalReplaceState = Native,
       heap = heap example_started,
       win_listeners = win_listeners example_started,
       elem_listeners = [],
       timers = [(1, SampleMouse, 1000), (2, Flush, - 1000)],
       next_timer = 3, next_closure = 6, hist_pushState = Patched,
       hist_replaceState = Patched, environment = example_env, date_now = example_clock,
       date_reads = 1, delivered = [], uncaught = [] \<rparr>"
  unfolding example_started_heap example_started_listeners
  by (simp add: example_negative_def config_def init_def start_defs DEFAULT_CONFIG_def
      example_env_def example_clock_def)

text \<open>
  C7 as stated fails for a negative \<^verbatim>\<open>processTime\<close>: \<open>-1\<close> is truthy, the flush
  timer is armed with a delay of \<open>-1000\<close> ms, and when it fires the consumer gets a
  snapshot.
\<close>

theorem negative_processTime_arms_flush:
  "processTime (st_config (config [ProcessTime (- 1)] (init example_env example_clock))) \<le> 0 \<and>
   timers example_negative = [(1, SampleMouse, 1000), (2, Flush, - 1000)] \<and>
   delivered example_negative = [] \<and>
   delivered (fire 2 example_negative) = [15]"
  by (simp add: config_def example_negative_eval fire_def report_def flush_defs
      example_started_heap DEFAULT_CONFIG_def split: sum.splits)

section \<open>Faults\<close>

lemma fire_timers: "timers (fire i s) = timers s \<and> st_intervals (fire i s) = st_intervals s"
proof -
  have "grows s (report (sampleMouse s))" by (rule grows_report[OF grows_sampleMouse])
  then show ?thesis
    by (auto simp: fire_def grows_def report_fields processResults_frame
        split: list.splits timer_cb.splits)
qed

lemma processResults_deliver:
  assumes "live s = Some ro" "get_time (heap s) (r_time ro) = Some tm"
  shows "processResults s =
           consume ro (length (heap s)) (copy_results ro (stamp_current ro s))"
proof -
  have "length (heap (stamp_current ro s)) = length (heap s)"
    by (simp add: stamp_current_def getTimestamp_def set_currentTime_def
        split: option.splits prod.splits)
  with assms show ?thesis by (simp add: processResults_def deliver_def)
qed

text \<open>
  C2, as the code has it. Nothing in the tracker catches a fault.
  \<^item> With a buffer, \<^verbatim>\<open>processResults()\<close> throws exactly what the consumer throws on
    the snapshot it is given, after the snapshot was delivered and without resetting the
    buffer, and returns normally when the consumer returns; with a null buffer (before
    the first \<^verbatim>\<open>start()\<close>) it throws a TypeError.
  \<^item> The wrapper of a custom event throws a TypeError when the buffer is null, and
    otherwise, after recording the event, whatever the user handler throws.
  \<^item> A timer callback, throwing or not, leaves the armed timers and the interval set as
    they are: a throwing consumer does not stop the periodic flush.
\<close>

theorem consumer_fault_propagates:
  "(\<forall>ro tm. live s = Some ro \<and> get_time (heap s) (r_time ro) = Some tm \<longrightarrow>
      (\<forall>e. processData (st_config s) (heap (copy_results ro (stamp_current ro s)))
             (length (heap s)) = Some e \<longrightarrow>
           processResults s = Inl (e, copy_results ro (stamp_current ro s))) \<and>
      (processData (st_config s) (heap (copy_results ro (stamp_current ro s)))
             (length (heap s)) = None \<longrightarrow>
           (\<exists>s'. processResults s = Inr s'))) \<and>
   (live s = None \<longrightarrow> processResults s = Inl (TypeError, s)) \<and>
   (live s = None \<longrightarrow> run_handler (WrappedH c n uh) ev s = Inl (TypeError, s)) \<and>
   (\<forall>s1 e. push_signal r_customEvents (\<lambda>t. CustomEvent n (detail ev) t) s = Inr s1 \<and>
           uh ev = Some e \<longrightarrow> run_handler (WrappedH c n uh) ev s = Inl (e, s1)) \<and>
   timers (fire i s) = timers s \<and> st_intervals (fire i s) = st_intervals s"
proof -
  have cfg: "st_config (copy_results ro (stamp_current ro s)) = st_config s" for ro
    by (simp add: copy_results_def stamp_current_def getTimestamp_def
        split: option.splits prod.splits)
  have a: "processResults s = Inl (e, copy_results ro (stamp_current ro s))"
    if "live s = Some ro" "get_time (heap s) (r_time ro) = Some tm"
      "processData (st_config s) (heap (copy_results ro (stamp_current ro s)))
             (length (heap s)) = Some e" for ro tm e
    using that by (simp add: processResults_deliver[OF that(1,2)] consume_def cfg)
  have b: "\<exists>s'. processResults s = Inr s'"
    if "live s = Some ro" "get_time (heap s) (r_time ro) = Some tm"
      "processData (st_config s) (heap (copy_results ro (stamp_current ro s)))
             (length (heap s)) = None" for ro tm
    using that by (simp add: processResults_deliver[OF that(1,2)] consume_def cfg)
  show ?thesis
    using a b by (auto simp: processResults_null push_signal_def fire_timers)
qed


lemma example_thrower_eval:
  "example_thrower =
     \<lparr> st_config = DEFAULT_CONFIG\<lparr>processData := example_throwing\<rparr>, st_active = True,
       st_listeners = st_listeners example_started,
       st_intervals = [1, 2], st_mediaElements = [], st_results = Some 14,
       st_mousePosition = None, st_originalPushState = Native,
       st_originalReplaceState = Native,
       heap = heap example_started,
       win_listeners = win_listeners example_started,
       elem_listeners = [],
       timers = [(1, SampleMouse, 1000), (2, Flush, 15000)],
       next_timer = 3, next_closure = 6, hist_pushState = Patched,
       hist_replaceState = Patched, environment = example_env, date_now = example_clock,
       date_reads = 1, delivered = [], uncaught = [] \<rparr>"
  unfolding example_started_heap example_started_listeners
  by (simp add: example_thrower_def config_def init_def start_defs DEFAULT_CONFIG_def
      example_env_def example_clock_def)

lemma example_thrower_flush:
  "processResults example_thrower =
     Inl (Thrown 1,
       example_thrower\<lparr> date_reads := 2,
         heap := (heap example_started)[1 := TimeObj 1000 1001 0] @
                   [ResultsObj \<lparr> r_userInfo = Some 0, r_time = 1, r_clicks = 3,
                      r_mouseMovements = 4, r_mouseScroll = 5, r_keyboardActivities = 6,
                      r_navigationHistory = 7, r_formInteractions = 8, r_touchEvents = 9,
                      r_mediaInteractions = 10, r_windowSizes = 11, r_visibilityChanges = 12,
                      r_customEvents = 13 \<rparr>],
         delivered := [15] \<rparr>)"
  by (simp add: example_thrower_eval flush_defs example_started_heap example_throwing_def
      example_clock_def)

text \<open>
  C2 as stated fails: with a consumer that throws, \<^verbatim>\<open>processResults()\<close> throws to its
  caller, the periodic flush reports an uncaught fault, and a custom event dispatched
  before the first \<^verbatim>\<open>start()\<close> reports an uncaught TypeError.
\<close>

theorem consumer_fault_escapes:
  "isl (processResults example_thrower) \<and>
   fst (projl (processResults example_thrower)) = Thrown 1 \<and>
   uncaught (fire 2 example_thrower) = [Thrown 1] \<and>
   uncaught (dispatchEvent (Event ''ping'')
     (registerCustomEvent ''ping'' example_handler (init example_env example_clock))) =
     [TypeError]"
proof -
  have "uncaught (fire 2 example_thrower) = [Thrown 1]"
    unfolding fire_def example_thrower_flush report_def
    by (simp add: example_thrower_eval)
  moreover have "uncaught (dispatchEvent (Event ''ping'')
     (registerCustomEvent ''ping'' example_handler (init example_env example_clock))) =
     [TypeError]"
    by (simp add: dispatchEvent_def invoke_def report_def registerCustomEvent_def
        new_closure_def addListener_def addEventListener_def init_def DEFAULT_CONFIG_def
        Event_def push_signal_def live_def)
  ultimately show ?thesis by (simp add: example_thrower_flush)
qed

theorem consumer_fault_propagates_witness:
  "live example_thrower =
     Some \<lparr> r_userInfo = Some 0, r_time = 1, r_clicks = 3, r_mouseMovements = 4,
            r_mouseScroll = 5, r_keyboardActivities = 6, r_navigationHistory = 7,
            r_formInteractions = 8, r_touchEvents = 9, r_mediaInteractions = 10,
            r_windowSizes = 11, r_visibilityChanges = 12, r_customEvents = 13 \<rparr> \<and>
   get_time (heap example_thrower) 1 = Some (1000, 0, 0) \<and>
   isl (processResults example_thrower) \<and>
   fst (projl (processResults example_thrower)) = Thrown 1 \<and>
   st_results (snd (projl (processResults example_thrower))) = st_results example_thrower \<and>
   (\<exists>s'. processResults example_started = Inr s') \<and>
   live (init example_env example_clock) = None \<and>
   processResults (init example_env example_clock) =
     Inl (TypeError, init example_env example_clock) \<and>
   run_handler (WrappedH 0 ''ping'' example_handler) (Event ''ping'')
     (init example_env example_clock) = Inl (TypeError, init example_env example_clock) \<and>
   isl (run_handler (WrappedH 0 ''ping'' (\<lambda>e. Some (Thrown 2))) (Event ''ping'')
     example_started) \<and>
   fst (projl (run_handler (WrappedH 0 ''ping'' (\<lambda>e. Some (Thrown 2))) (Event ''ping'')
     example_started)) = Thrown 2 \<and>
   timers (fire 2 example_thrower) = [(1, SampleMouse, 1000), (2, Flush, 15000)]"
proof -
  let ?ro = "\<lparr> r_userInfo = Some 0, r_time = 1, r_clicks = 3, r_mouseMovements = 4,
            r_mouseScroll = 5, r_keyboardActivities = 6, r_navigationHistory = 7,
            r_formInteractions = 8, r_touchEvents = 9, r_mediaInteractions = 10,
            r_windowSizes = 11, r_visibilityChanges = 12, r_customEvents = 13 \<rparr>"
  let ?i = "init example_env example_clock"
  have l: "live example_thrower = Some ?ro"
    by (simp add: live_def example_thrower_eval example_started_store)
  have t: "get_time (heap example_thrower) (r_time ?ro) = Some (1000, 0, 0)"
    by (simp add: example_thrower_eval example_started_store)
  have p: "processData (st_config example_thrower)
             (heap (copy_results ?ro (stamp_current ?ro example_thrower)))
             (length (heap example_thrower)) = Some (Thrown 1)"
    by (simp add: example_thrower_eval example_throwing_def)
  have l2: "live example_started = Some ?ro"
    by (simp add: live_def example_started_fields example_started_store)
  have t2: "get_time (heap example_started) (r_time ?ro) = Some (1000, 0, 0)"
    by (simp add: example_started_store)
  have p2: "processData (st_config example_started)
             (heap (copy_results ?ro (stamp_current ?ro example_started)))
             (length (heap example_started)) = None"
    by (simp add: example_started_fields DEFAULT_CONFIG_def)
  have n: "live ?i = None" by (simp add: live_def init_def)
  have w: "push_signal r_customEvents (\<lambda>t. CustomEvent ''ping'' (detail (Event ''ping'')) t)
             example_started =
           Inr (example_started\<lparr> date_reads := 2,
                  heap := (heap example_started)
                    [13 := ArrayObj [CustomEvent ''ping'' Undefined 1001]] \<rparr>)"
    by (simp add: push_signal_def push_to_def getTimestamp_def l2 Event_def get_array_def
        example_started_heap example_started_fields example_clock_def)
  have u: "(\<lambda>e::event. Some (Thrown 2)) (Event ''ping'') = Some (Thrown 2)" by simp
  from consumer_fault_propagates[of example_thrower 0 "''ping''" example_handler "Event ''ping''" 2]
    l t p
  have a: "processResults example_thrower =
             Inl (Thrown 1, copy_results ?ro (stamp_current ?ro example_thrower))"
    and f: "timers (fire 2 example_thrower) = timers example_thrower"
    by blast+
  from consumer_fault_propagates[of example_started 0 "''ping''" "\<lambda>e. Some (Thrown 2)"
      "Event ''ping''" 2] l2 t2 p2 w u
  have b: "\<exists>s'. processResults example_started = Inr s'"
    and c: "run_handler (WrappedH 0 ''ping'' (\<lambda>e. Some (Thrown 2))) (Event ''ping'')
              example_started =
            Inl (Thrown 2, example_started\<lparr> date_reads := 2,
                  heap := (heap example_started)
                    [13 := ArrayObj [CustomEvent ''ping'' Undefined 1001]] \<rparr>)"
    by blast+
  from consumer_fault_propagates[of ?i 0 "''ping''" example_handler "Event ''ping''" 2] n
  have d: "processResults ?i = Inl (TypeError, ?i)"
    "run_handler (WrappedH 0 ''ping'' example_handler) (Event ''ping'') ?i = Inl (TypeError, ?i)"
    by blast+
  have r: "st_results (copy_results ?ro (stamp_current ?ro example_thrower)) =
           st_results example_thrower"
    by (simp add: copy_results_def stamp_current_def getTimestamp_def
        split: option.splits prod.splits)
  show ?thesis
    using l t b n d f r unfolding a c by (simp add: example_thrower_eval)
qed

section \<open>The delivered snapshot\<close>





section \<open>Reconfiguration during a session\<close>






section \<open>Snapshots share the nested objects\<close>

lemma example_moved_eval:
  "example_moved = example_started\<lparr>date_reads := 2, st_mousePosition := Some (1, 1, 1001)\<rparr>"
  by (simp add: example_moved_def handleMouseMove_def getTimestamp_def state_of_def
      example_move_def Event_def example_started_fields example_clock_def)

text \<open>
  C1 at two inputs. With the default configuration the snapshot delivered by a flush and
  the rebuilt live buffer refer to the same \<^verbatim>\<open>userInfo\<close> object: page code that writes
  \<^verbatim>\<open>snapshot.userInfo.platform\<close> changes the live buffer. With
  \<^verbatim>\<open>clearAfterProcess = false\<close> the delivered snapshot and the live buffer share every
  sequence: the next sampling tick changes the snapshot delivered before it, and a push
  into the snapshot shows up in the live buffer.
\<close>

theorem delivered_snapshot_aliases_buffer:
  "delivered (state_of (processResults example_started)) = [15] \<and>
   live_userInfo (state_of (processResults example_started)) =
     Some (Some \<lparr> ui_windowSize = (800, 600), ui_appCodeName = ''Mozilla'',
            ui_appName = ''Netscape'', ui_vendor = ''Acme'', ui_platform = ''Linux'',
            ui_userAgent = ''UA'' \<rparr>) \<and>
   live_userInfo (user_set_platform 15 ''tampered'' (state_of (processResults example_started))) =
     Some (Some \<lparr> ui_windowSize = (800, 600), ui_appCodeName = ''Mozilla'',
            ui_appName = ''Netscape'', ui_vendor = ''Acme'', ui_platform = ''tampered'',
            ui_userAgent = ''UA'' \<rparr>) \<and>
   delivered (state_of (processResults (config [ClearAfterProcess False] example_moved))) = [15] \<and>
   obj_array r_mouseMovements
     (heap (state_of (processResults (config [ClearAfterProcess False] example_moved)))) 15 =
     Some [] \<and>
   obj_array r_mouseMovements
     (heap (state_of (sampleMouse
        (state_of (processResults (config [ClearAfterProcess False] example_moved)))))) 15 =
     Some [Tup [Num 1, Num 1, Num 1001]] \<and>
   live_array r_mouseMovements
     (user_push 15 (Tup [Num 7, Num 7, Num 7])
        (state_of (processResults (config [ClearAfterProcess False] example_moved)))) =
     Some [Tup [Num 7, Num 7, Num 7]]"
  by (simp add: flush_defs state_of_def view_defs user_set_platform_def user_push_def
      arr_push_def sampleMouse_def config_def example_moved_eval nth_append
      example_started_fields example_started_heap DEFAULT_CONFIG_def example_clock_def)

theorem delivered_snapshot_aliases_buffer_witness:
  "obj_array r_mouseMovements
     (heap (state_of (processResults (config [ClearAfterProcess False] example_moved)))) 15 =
     Some [] \<and>
   obj_array r_mouseMovements
     (heap (state_of (sampleMouse
        (state_of (processResults (config [ClearAfterProcess False] example_moved)))))) 15 \<noteq>
   obj_array r_mouseMovements
     (heap (state_of (processResults (config [ClearAfterProcess False] example_moved)))) 15"
  using delivered_snapshot_aliases_buffer by simp

section \<open>Listeners that survive \<^verbatim>\<open>stop\<close>\<close>

text \<open>
  C6 at the default configuration. The registry is keyed by the handler, and the one
  navigation handler is registered for four event types, so the registry keeps only the
  last of them. \<^verbatim>\<open>stop()\<close> empties the registry, cancels the timers and restores the
  history entry points, but three navigation listeners stay on \<^verbatim>\<open>window\<close>, and a
  \<^verbatim>\<open>popstate\<close> after \<^verbatim>\<open>stop()\<close> is still recorded.
\<close>

theorem navigation_listeners_leak:
  "st_listeners (state_of (stop example_started)) = [] \<and>
   win_listeners (state_of (stop example_started)) =
     [(''popstate'', NavH 4, False), (''pushstate'', NavH 4, False),
      (''replacestate'', NavH 4, False)] \<and>
   timers (state_of (stop example_started)) = [] \<and>
   hist_pushState (state_of (stop example_started)) = Native \<and>
   \<not> st_active (state_of (stop example_started)) \<and>
   live_array r_navigationHistory (state_of (stop example_started)) = Some [] \<and>
   live_array r_navigationHistory
     (dispatchEvent (Event ''popstate'') (state_of (stop example_started))) =
     Some [Tup [Str ''/'', Num 1003]]"
  by (simp add: stop_defs flush_defs state_of_def view_defs dispatchEvent_def invoke_def
      report_def push_signal_def push_to_def Event_def nth_append
      example_started_fields example_started_heap example_started_listeners
      DEFAULT_CONFIG_def example_clock_def example_env_def)

end
